theory Spec2Isabelle
  imports Complex_Main
begin

section \<open>Numbers, errors and the link model\<close>

text \<open>
  Costs, capacities, flows and traffic are Python numbers. The algorithms use
  \<^verbatim>\<open>float('inf')\<close> as a sentinel, so the model adds the two infinities and NaN to the
  rationals; rounding of finite floats is not modelled (finite arithmetic is exact).
\<close>

datatype pyfloat = Fin rat | PInf | NInf | NaN

fun fadd :: "pyfloat \<Rightarrow> pyfloat \<Rightarrow> pyfloat" where
  "fadd (Fin a) (Fin b) = Fin (a + b)"
| "fadd NaN _ = NaN"
| "fadd _ NaN = NaN"
| "fadd PInf NInf = NaN"
| "fadd NInf PInf = NaN"
| "fadd PInf _ = PInf"
| "fadd _ PInf = PInf"
| "fadd NInf _ = NInf"
| "fadd _ NInf = NInf"

fun fneg :: "pyfloat \<Rightarrow> pyfloat" where
  "fneg (Fin a) = Fin (- a)"
| "fneg PInf = NInf"
| "fneg NInf = PInf"
| "fneg NaN = NaN"

definition fsub :: "pyfloat \<Rightarrow> pyfloat \<Rightarrow> pyfloat" where
  "fsub a b = fadd a (fneg b)"

text \<open>Python's \<^verbatim>\<open><\<close>: every comparison with NaN is false.\<close>

fun flt :: "pyfloat \<Rightarrow> pyfloat \<Rightarrow> bool" where
  "flt (Fin a) (Fin b) = (a < b)"
| "flt NaN _ = False"
| "flt _ NaN = False"
| "flt NInf NInf = False"
| "flt NInf _ = True"
| "flt _ NInf = False"
| "flt PInf _ = False"
| "flt _ PInf = True"

text \<open>\<^verbatim>\<open>min(a, b)\<close> keeps its first argument unless the second is smaller.\<close>

definition fmin :: "pyfloat \<Rightarrow> pyfloat \<Rightarrow> pyfloat" where
  "fmin a b = (if flt b a then b else a)"

text \<open>Truth value of a number: everything but zero.\<close>

definition truthy :: "pyfloat \<Rightarrow> bool" where
  "truthy x = (x \<noteq> Fin 0)"

datatype error =
    KeyError | AttributeError | ZeroDivisionError | ValueError | TypeError
  | UnboundLocalError

text \<open>
  A physical link with its direction-qualified attributes. Nodes and links are
  referred to by their integer ids.
\<close>

record plink =
  source :: nat
  destination :: nat
  costSD :: pyfloat
  costDS :: pyfloat
  capacitySD :: pyfloat
  capacityDS :: pyfloat
  flowSD :: pyfloat
  flowDS :: pyfloat
  trafficSD :: pyfloat
  trafficDS :: pyfloat
  wctrafficSD :: pyfloat
  wctrafficDS :: pyfloat
  wcfailure :: "nat option"

text \<open>
  The part of \<^verbatim>\<open>Network\<close> the graph algorithms read and write:
  \<^item> \<open>nodes\<close> and \<open>plinks\<close>: the ids of \<^verbatim>\<open>self.nodes\<close> and \<^verbatim>\<open>self.plinks\<close> in dictionary order;
  \<^item> \<open>link\<close>: the store of link objects, by id (the objects are shared and mutated in place);
  \<^item> \<open>graph\<close>: \<^verbatim>\<open>self.graph[node.id]['plink']\<close>, the (neighbor, link) pairs of a node in the
    order the iteration yields them; a node without an entry has none (defaultdict).
\<close>

record network =
  nodes :: "nat list"
  plinks :: "nat list"
  link :: "nat \<Rightarrow> plink"
  graph :: "(nat \<times> (nat \<times> nat) list) list"

definition adj :: "network \<Rightarrow> nat \<Rightarrow> (nat \<times> nat) list" where
  "adj net n = (case map_of (graph net) n of None \<Rightarrow> [] | Some ps \<Rightarrow> ps)"

text \<open>
  Modelled from the spec: \<^verbatim>\<open>Link.__call__\<close> (objects.py is not among the sources). The
  call \<^verbatim>\<open>plink('cost', node)\<close> reads the attribute of the direction in which \<open>node\<close> is
  the current endpoint, as \<^verbatim>\<open>bellman_ford\<close> does explicitly with
  \<^verbatim>\<open>(node == adj_plink.source)*'SD' or 'DS'\<close>.
\<close>

definition cost_from :: "plink \<Rightarrow> nat \<Rightarrow> pyfloat" where
  "cost_from p n = (if n = source p then costSD p else costDS p)"

section \<open>The priority queue\<close>

text \<open>
  \<^verbatim>\<open>heapq\<close> keeps tuples whose first component is the accumulated cost. The heap is
  the list of its entries in the order they were pushed; \<open>heappop\<close> removes the
  entry of least cost. Modelled from the spec: the order of two entries of equal cost
  is decided by the comparison of node objects, which objects.py defines; the spec
  leaves it at "ties broken by insertion/heap order", so the earliest pushed entry of
  least cost is the one popped.
\<close>

definition heappush :: "'a list \<Rightarrow> 'a \<Rightarrow> 'a list" where
  "heappush h x = h @ [x]"

fun heap_min :: "('a \<Rightarrow> pyfloat) \<Rightarrow> 'a \<Rightarrow> 'a list \<Rightarrow> 'a" where
  "heap_min key m [] = m"
| "heap_min key m (y # ys) = heap_min key (if flt (key y) (key m) then y else m) ys"

fun heappop :: "('a \<Rightarrow> pyfloat) \<Rightarrow> 'a list \<Rightarrow> ('a \<times> 'a list) option" where
  "heappop key [] = None"
| "heappop key (x # xs) = (let m = heap_min key x xs in Some (m, remove1 m (x # xs)))"

lemma heap_min_mem: "heap_min key m ys \<in> insert m (set ys)"
  by (induction ys arbitrary: m) auto

lemma heappop_None: "heappop key h = None \<longleftrightarrow> h = []"
  by (cases h) (simp_all add: Let_def)

lemma heappop_mem: "heappop key h = Some (m, h') \<Longrightarrow> m \<in> set h"
  using heap_min_mem [of key "hd h" "tl h"] by (cases h) (auto simp: Let_def)

lemma heappop_length: "heappop key h = Some (m, h') \<Longrightarrow> length h' < length h"
proof (cases h)
  case Nil
  then show "heappop key h = Some (m, h') \<Longrightarrow> ?thesis" by simp
next
  case (Cons x xs)
  assume pop: "heappop key h = Some (m, h')"
  have "heap_min key x xs \<in> set (x # xs)"
    using heap_min_mem [of key x xs] by simp
  then have "length (remove1 (heap_min key x xs) (x # xs)) < length (x # xs)"
    by (simp only: length_remove1) simp
  with Cons pop show ?thesis by (auto simp: Let_def)
qed

lemma heappop_set: "heappop key h = Some (m, h') \<Longrightarrow> set h' \<subseteq> set h"
proof (cases h)
  case Nil
  then show "heappop key h = Some (m, h') \<Longrightarrow> ?thesis" by simp
next
  case (Cons x xs)
  assume "heappop key h = Some (m, h')"
  with Cons have "h' = remove1 m h" by (auto simp: Let_def)
  then show ?thesis by (simp only: set_remove1_subset)
qed

section \<open>Dijkstra\<close>

text \<open>
  The dictionaries \<^verbatim>\<open>dist\<close>, \<^verbatim>\<open>prec_node\<close> and \<^verbatim>\<open>prec_plink\<close> are created with the allowed
  nodes as keys and never gain a key in the loop (only \<^verbatim>\<open>dist[source] = 0\<close> may add the
  source), so each is a total function together with its fixed key set; the key set is
  consulted wherever the code indexes with a node that the loop has not checked.
\<close>

record dstate =
  d_heap :: "(pyfloat \<times> nat) list"
  d_visited :: "nat list"
  d_dist :: "nat \<Rightarrow> pyfloat"
  d_prec_node :: "nat \<Rightarrow> nat option"
  d_prec_plink :: "nat \<Rightarrow> nat option"

definition dijkstra_relax ::
  "network \<Rightarrow> nat list \<Rightarrow> nat list \<Rightarrow> pyfloat \<Rightarrow> nat \<Rightarrow> dstate \<Rightarrow> nat \<times> nat \<Rightarrow> dstate" where
  "dijkstra_relax net allowed_nodes allowed_plinks dist_node node st e =
     (case e of (neighbor, adj_plink) \<Rightarrow>
        if neighbor \<notin> set allowed_nodes then st
        else if adj_plink \<notin> set allowed_plinks then st
        else
          let dist_neighbor = fadd dist_node (cost_from (link net adj_plink) node) in
          if flt dist_neighbor (d_dist st neighbor) then
            st\<lparr>d_dist := (d_dist st)(neighbor := dist_neighbor),
               d_prec_node := (d_prec_node st)(neighbor := Some node),
               d_prec_plink := (d_prec_plink st)(neighbor := Some adj_plink),
               d_heap := heappush (d_heap st) (dist_neighbor, neighbor)\<rparr>
          else st)"

definition dijkstra_step :: "network \<Rightarrow> nat list \<Rightarrow> nat list \<Rightarrow> dstate \<Rightarrow> dstate" where
  "dijkstra_step net allowed_nodes allowed_plinks st =
     (case heappop fst (d_heap st) of
        None \<Rightarrow> st
      | Some ((dist_node, node), h) \<Rightarrow>
          if node \<in> set (d_visited st) then st\<lparr>d_heap := h\<rparr>
          else foldl (dijkstra_relax net allowed_nodes allowed_plinks dist_node node)
                 (st\<lparr>d_heap := h, d_visited := node # d_visited st\<rparr>) (adj net node))"

text \<open>Every node the search can push: the neighbours recorded in the adjacency.\<close>

definition nbrs :: "network \<Rightarrow> nat set" where
  "nbrs net = fst ` (\<Union>ps \<in> snd ` set (graph net). set ps)"

lemma finite_nbrs: "finite (nbrs net)"
  by (simp add: nbrs_def)

lemma adj_nbrs:
  assumes "(n, l) \<in> set (adj net v)"
  shows "n \<in> nbrs net"
proof -
  from assms obtain ps where ps: "map_of (graph net) v = Some ps" "(n, l) \<in> set ps"
    by (cases "map_of (graph net) v") (auto simp: adj_def)
  from ps(1) have "(v, ps) \<in> set (graph net)"
    by (rule map_of_SomeD)
  with ps(2) have "(n, l) \<in> (\<Union>ps \<in> snd ` set (graph net). set ps)"
    by force
  then show ?thesis
    unfolding nbrs_def by force
qed

lemma relax_heap: "snd ` set (d_heap (dijkstra_relax net a_n a_t d v st e)) \<subseteq> snd ` set (d_heap st) \<union> {fst e}"
  by (auto simp: dijkstra_relax_def heappush_def Let_def split: prod.splits)

lemma relax_visited: "d_visited (dijkstra_relax net a_n a_t d v st e) = d_visited st"
  by (auto simp: dijkstra_relax_def heappush_def Let_def split: prod.splits)

lemma fold_relax_visited: "d_visited (foldl (dijkstra_relax net a_n a_t d v) st es) = d_visited st"
  by (induction es arbitrary: st) (simp_all add: relax_visited)

lemma fold_relax_heap:
  "snd ` set (d_heap (foldl (dijkstra_relax net a_n a_t d v) st es)) \<subseteq> snd ` set (d_heap st) \<union> fst ` set es"
proof (induction es arbitrary: st)
  case Nil
  show ?case by simp
next
  case (Cons e es)
  show ?case using Cons [of "dijkstra_relax net a_n a_t d v st e"] relax_heap [of net a_n a_t d v st e]
    by auto
qed

definition dmeasure :: "network \<Rightarrow> dstate \<Rightarrow> nat \<times> nat" where
  "dmeasure net st =
     (card ((nbrs net \<union> snd ` set (d_heap st)) - set (d_visited st)), length (d_heap st))"

lemma dijkstra_step_decreases:
  assumes "d_heap st \<noteq> []"
  shows "(dmeasure net (dijkstra_step net a_n a_t st), dmeasure net st) \<in> less_than <*lex*> less_than"
proof -
  from assms obtain dn v h where pop: "heappop fst (d_heap st) = Some ((dn, v), h)"
    by (cases "heappop fst (d_heap st)") (auto simp: heappop_None)
  have mem: "(dn, v) \<in> set (d_heap st)" and sub: "set h \<subseteq> set (d_heap st)"
    and len: "length h < length (d_heap st)"
    using pop heappop_mem heappop_set heappop_length by metis+
  let ?U = "nbrs net \<union> snd ` set (d_heap st)"
  show ?thesis
  proof (cases "v \<in> set (d_visited st)")
    case True
    have "(nbrs net \<union> snd ` set h) - set (d_visited st) \<subseteq> ?U - set (d_visited st)"
      using sub by auto
    then have "card ((nbrs net \<union> snd ` set h) - set (d_visited st)) \<le> card (?U - set (d_visited st))"
      by (intro card_mono) (auto simp: finite_nbrs)
    with True pop len show ?thesis
      by (auto simp: dmeasure_def dijkstra_step_def)
  next
    case False
    let ?st' = "foldl (dijkstra_relax net a_n a_t dn v) (st\<lparr>d_heap := h, d_visited := v # d_visited st\<rparr>) (adj net v)"
    have h': "snd ` set (d_heap ?st') \<subseteq> snd ` set h \<union> fst ` set (adj net v)"
      using fold_relax_heap [of net a_n a_t dn v "st\<lparr>d_heap := h, d_visited := v # d_visited st\<rparr>" "adj net v"]
      by simp
    have v': "d_visited ?st' = v # d_visited st"
      by (simp add: fold_relax_visited)
    have "fst ` set (adj net v) \<subseteq> nbrs net"
      using adj_nbrs by force
    with h' sub have "snd ` set (d_heap ?st') \<subseteq> ?U"
      by blast
    then have "(nbrs net \<union> snd ` set (d_heap ?st')) - set (d_visited ?st') \<subseteq> (?U - set (d_visited st)) - {v}"
      unfolding v' by auto
    moreover have "v \<in> ?U - set (d_visited st)"
      using mem False by force
    ultimately have "(nbrs net \<union> snd ` set (d_heap ?st')) - set (d_visited ?st') \<subset> ?U - set (d_visited st)"
      by blast
    then have "card ((nbrs net \<union> snd ` set (d_heap ?st')) - set (d_visited ?st')) < card (?U - set (d_visited st))"
      by (intro psubset_card_mono) (auto simp: finite_nbrs)
    with False pop show ?thesis
      by (auto simp: dmeasure_def dijkstra_step_def)
  qed
qed

function dijkstra_loop :: "network \<Rightarrow> nat list \<Rightarrow> nat list \<Rightarrow> dstate \<Rightarrow> dstate" where
  "dijkstra_loop net allowed_nodes allowed_plinks st =
     (if d_heap st = [] then st
      else dijkstra_loop net allowed_nodes allowed_plinks
             (dijkstra_step net allowed_nodes allowed_plinks st))"
  by pat_completeness auto
termination
  by (relation "inv_image (less_than <*lex*> less_than) (\<lambda>(net, a_n, a_t, st). dmeasure net st)")
     (auto simp: dijkstra_step_decreases simp del: in_lex_prod)

declare dijkstra_loop.simps [simp del]

text \<open>
  The trace back from the target follows \<^verbatim>\<open>prec_node\<close> until it meets the source. With
  negative costs the predecessor pointers can form a cycle, so the loop is bounded by
  fuel (\<open>None\<close>: the bound was reached). Indexing \<^verbatim>\<open>prec_node\<close> or \<^verbatim>\<open>prec_plink\<close> with a
  node outside the allowed nodes, or with \<^verbatim>\<open>None\<close>, raises KeyError.
\<close>

fun dijkstra_traceback ::
  "nat \<Rightarrow> nat \<Rightarrow> nat list \<Rightarrow> (nat \<Rightarrow> nat option) \<Rightarrow> (nat \<Rightarrow> nat option) \<Rightarrow> nat \<Rightarrow>
     nat option list \<Rightarrow> (error + nat option list) option" where
  "dijkstra_traceback 0 src keys prec_node prec_plink cur path_plink = None"
| "dijkstra_traceback (Suc fuel) src keys prec_node prec_plink cur path_plink =
     (if cur = src then Some (Inr path_plink)
      else if cur \<notin> set keys then Some (Inl KeyError)
      else case prec_node cur of
             None \<Rightarrow> Some (Inl KeyError)
           | Some c \<Rightarrow>
               if c \<notin> set keys then Some (Inl KeyError)
               else dijkstra_traceback fuel src keys prec_node prec_plink c
                      (path_plink @ [prec_plink c]))"

definition dijkstra_init :: "nat \<Rightarrow> dstate" where
  "dijkstra_init src =
     \<lparr>d_heap = [(Fin 0, src)], d_visited = [],
      d_dist = (\<lambda>i. PInf)(src := Fin 0),
      d_prec_node = (\<lambda>i. None), d_prec_plink = (\<lambda>i. None)\<rparr>"

text \<open>
  \<^verbatim>\<open>dijkstra\<close> returns the distance dictionary, the links of the shortest path and the
  links of the shortest path tree (\<^verbatim>\<open>filter(None, prec_plink.values())\<close>).
\<close>

definition dijkstra ::
  "nat \<Rightarrow> network \<Rightarrow> nat \<Rightarrow> nat \<Rightarrow> nat list option \<Rightarrow> nat list option \<Rightarrow>
     (error + (nat \<rightharpoonup> pyfloat) \<times> nat option list \<times> nat list) option" where
  "dijkstra fuel net src target allowed_plinks allowed_nodes =
     (let a_t = (case allowed_plinks of None \<Rightarrow> plinks net | Some t \<Rightarrow> t);
          a_n = (case allowed_nodes of None \<Rightarrow> nodes net | Some n \<Rightarrow> n);
          st = dijkstra_loop net a_n a_t (dijkstra_init src)
      in if target \<notin> set a_n then Some (Inl KeyError)
         else case dijkstra_traceback fuel src a_n (d_prec_node st) (d_prec_plink st)
                     target [d_prec_plink st target] of
                None \<Rightarrow> None
              | Some (Inl e) \<Rightarrow> Some (Inl e)
              | Some (Inr path_plink) \<Rightarrow>
                  Some (Inr ((\<lambda>i. if i \<in> set a_n \<or> i = src then Some (d_dist st i) else None),
                             rev (butlast path_plink),
                             List.map_filter (d_prec_plink st) a_n)))"

subsection \<open>An unreachable target\<close>

text \<open>
  A node is reachable from the source when a chain of adjacency entries leads to it
  whose neighbours and links are all allowed. The loop only ever gives a predecessor
  to a reachable node.
\<close>

definition allowed_edge :: "network \<Rightarrow> nat list \<Rightarrow> nat list \<Rightarrow> nat \<Rightarrow> nat \<Rightarrow> bool" where
  "allowed_edge net a_n a_t u v \<longleftrightarrow>
     (\<exists>l. (v, l) \<in> set (adj net u) \<and> v \<in> set a_n \<and> l \<in> set a_t)"

definition reachable :: "network \<Rightarrow> nat list \<Rightarrow> nat list \<Rightarrow> nat \<Rightarrow> nat \<Rightarrow> bool" where
  "reachable net a_n a_t s v \<longleftrightarrow> (s, v) \<in> {(u, w). allowed_edge net a_n a_t u w}\<^sup>*"

lemma reachable_step:
  "reachable net a_n a_t s u \<Longrightarrow> allowed_edge net a_n a_t u v \<Longrightarrow> reachable net a_n a_t s v"
  unfolding reachable_def by (auto intro: rtrancl_into_rtrancl)

definition dijkstra_inv :: "network \<Rightarrow> nat list \<Rightarrow> nat list \<Rightarrow> nat \<Rightarrow> dstate \<Rightarrow> bool" where
  "dijkstra_inv net a_n a_t s st \<longleftrightarrow>
     (\<forall>e \<in> set (d_heap st). reachable net a_n a_t s (snd e)) \<and>
     (\<forall>v. d_prec_node st v \<noteq> None \<longrightarrow> reachable net a_n a_t s v)"

lemma relax_inv:
  assumes "dijkstra_inv net a_n a_t s st" "reachable net a_n a_t s v" "e \<in> set (adj net v)"
  shows "dijkstra_inv net a_n a_t s (dijkstra_relax net a_n a_t d v st e)"
proof -
  obtain n l where e: "e = (n, l)" by (cases e)
  show ?thesis
  proof (cases "n \<in> set a_n \<and> l \<in> set a_t")
    case True
    with assms e have "reachable net a_n a_t s n"
      by (auto intro!: reachable_step [of net a_n a_t s v n] simp: allowed_edge_def)
    with assms(1) True e show ?thesis
      by (auto simp: dijkstra_inv_def dijkstra_relax_def heappush_def Let_def)
  next
    case False
    with assms(1) e show ?thesis
      by (auto simp: dijkstra_relax_def)
  qed
qed

lemma fold_relax_inv:
  assumes "dijkstra_inv net a_n a_t s st" "reachable net a_n a_t s v" "set es \<subseteq> set (adj net v)"
  shows "dijkstra_inv net a_n a_t s (foldl (dijkstra_relax net a_n a_t d v) st es)"
  using assms by (induction es arbitrary: st) (auto intro: relax_inv)

lemma step_inv:
  assumes "dijkstra_inv net a_n a_t s st"
  shows "dijkstra_inv net a_n a_t s (dijkstra_step net a_n a_t st)"
proof (cases "heappop fst (d_heap st)")
  case None
  with assms show ?thesis by (simp add: dijkstra_step_def)
next
  case (Some r)
  then obtain d v h where pop: "heappop fst (d_heap st) = Some ((d, v), h)"
    by (cases r) auto
  have mem: "(d, v) \<in> set (d_heap st)" and sub: "set h \<subseteq> set (d_heap st)"
    using pop heappop_mem heappop_set by metis+
  from assms mem have rv: "reachable net a_n a_t s v"
    by (auto simp: dijkstra_inv_def)
  from assms sub have inv1: "dijkstra_inv net a_n a_t s (st\<lparr>d_heap := h\<rparr>)"
    by (auto simp: dijkstra_inv_def)
  then have inv2: "dijkstra_inv net a_n a_t s (st\<lparr>d_heap := h, d_visited := v # d_visited st\<rparr>)"
    by (auto simp: dijkstra_inv_def)
  show ?thesis
    using pop inv1 fold_relax_inv [OF inv2 rv subset_refl]
    by (simp add: dijkstra_step_def)
qed

lemma loop_inv:
  "dijkstra_inv net a_n a_t s st \<Longrightarrow> dijkstra_inv net a_n a_t s (dijkstra_loop net a_n a_t st)"
proof (induction net a_n a_t st rule: dijkstra_loop.induct)
  case (1 net a_n a_t st)
  show ?case
  proof (cases "d_heap st = []")
    case True
    with "1.prems" show ?thesis by (simp add: dijkstra_loop.simps)
  next
    case False
    with "1.IH" "1.prems" step_inv [of net a_n a_t s st] show ?thesis
      by (subst dijkstra_loop.simps) simp
  qed
qed

lemma init_inv: "dijkstra_inv net a_n a_t s (dijkstra_init s)"
  by (simp add: dijkstra_inv_def dijkstra_init_def reachable_def)

lemma dijkstra_unreachable_KeyError:
  assumes "target \<noteq> s"
    and "\<not> reachable net (case an of None \<Rightarrow> nodes net | Some n \<Rightarrow> n)
            (case ap of None \<Rightarrow> plinks net | Some t \<Rightarrow> t) s target"
  shows "dijkstra (Suc k) net s target ap an = Some (Inl KeyError)"
proof -
  let ?an = "case an of None \<Rightarrow> nodes net | Some n \<Rightarrow> n"
  let ?ap = "case ap of None \<Rightarrow> plinks net | Some t \<Rightarrow> t"
  let ?st = "dijkstra_loop net ?an ?ap (dijkstra_init s)"
  have "dijkstra_inv net ?an ?ap s ?st"
    by (intro loop_inv init_inv)
  with assms(2) have "d_prec_node ?st target = None"
    by (auto simp: dijkstra_inv_def)
  with assms(1) show ?thesis
    by (simp add: dijkstra_def Let_def)
qed

text \<open>Small networks for the concrete runs below.\<close>

definition new_plink :: "nat \<Rightarrow> nat \<Rightarrow> pyfloat \<Rightarrow> pyfloat \<Rightarrow> plink" where
  "new_plink s d c_sd c_ds =
     \<lparr>source = s, destination = d, costSD = c_sd, costDS = c_ds,
      capacitySD = Fin 0, capacityDS = Fin 0, flowSD = Fin 0, flowDS = Fin 0,
      trafficSD = Fin 0, trafficDS = Fin 0, wctrafficSD = Fin 0, wctrafficDS = Fin 0,
      wcfailure = None\<rparr>"

definition two_isolated_nodes :: network where
  "two_isolated_nodes =
     \<lparr>nodes = [1, 2], plinks = [], link = (\<lambda>_. new_plink 0 0 (Fin 0) (Fin 0)), graph = []\<rparr>"

text \<open>
  Claim C2: for every call of \<^verbatim>\<open>dijkstra\<close> whose target is not reachable from the source
  over the allowed links and nodes, the call returns normally with an infinite distance
  for the target and an empty path. The code does not return: the trace back starts at
  the target, reads \<^verbatim>\<open>prec_node[target]\<close>, which is \<^verbatim>\<open>None\<close>, and then indexes
  \<^verbatim>\<open>prec_plink\<close> with it. On two nodes without any link the call from node 1 to node 2
  raises KeyError (\<open>dijkstra_unreachable_KeyError\<close> above shows the same for every
  unreachable target other than the source).
\<close>

theorem dijkstra_unreachable_target_raises:
  "dijkstra 5 two_isolated_nodes 1 2 None None = Some (Inl KeyError)"
  by (simp add: dijkstra_def two_isolated_nodes_def dijkstra_loop.simps dijkstra_step_def
      dijkstra_init_def adj_def Let_def eval_nat_numeral)

section \<open>A* (constrained shortest path)\<close>

text \<open>
  Every heap entry carries the same list object \<^verbatim>\<open>pc\<close> (the target followed by the
  reversed path constraints), which \<^verbatim>\<open>pc.pop()\<close> changes in place, so the constraints
  are one component of the loop state. When the popped node is the last constraint the
  visited set and the heap are cleared; the search returns once no constraint is left.
\<close>

record astate =
  a_heap :: "(pyfloat \<times> nat \<times> nat list \<times> nat list) list"
  a_visited :: "nat list"
  a_pc :: "nat list"

definition A_star_push ::
  "network \<Rightarrow> nat list \<Rightarrow> nat list \<Rightarrow> nat list \<Rightarrow> nat list \<Rightarrow> pyfloat \<Rightarrow> nat \<Rightarrow> nat list \<Rightarrow>
     nat list \<Rightarrow> astate \<Rightarrow> nat \<times> nat \<Rightarrow> astate" where
  "A_star_push net allowed_nodes excluded_nodes allowed_plinks excluded_plinks dist_node node ns ps st e =
     (case e of (neighbor, adj_plink) \<Rightarrow>
        if neighbor \<notin> set allowed_nodes - set excluded_nodes then st
        else if adj_plink \<notin> set allowed_plinks - set excluded_plinks then st
        else st\<lparr>a_heap := heappush (a_heap st)
                   (fadd dist_node (cost_from (link net adj_plink) node), neighbor,
                    ns @ [neighbor], ps @ [adj_plink])\<rparr>)"

definition A_star_step ::
  "network \<Rightarrow> nat list \<Rightarrow> nat list \<Rightarrow> nat list \<Rightarrow> nat list \<Rightarrow> astate \<Rightarrow>
     (nat list \<times> nat list) + astate" where
  "A_star_step net allowed_nodes excluded_nodes allowed_plinks excluded_plinks st =
     (case heappop fst (a_heap st) of
        None \<Rightarrow> Inr st
      | Some ((dist_node, node, ns, ps), h) \<Rightarrow>
          if node \<in> set (a_visited st) then Inr (st\<lparr>a_heap := h\<rparr>)
          else
            let st1 = st\<lparr>a_heap := h, a_visited := node # a_visited st\<rparr>;
                hit = (a_pc st \<noteq> [] \<and> node = last (a_pc st));
                st2 = (if hit then st1\<lparr>a_heap := [], a_visited := [], a_pc := butlast (a_pc st)\<rparr>
                       else st1)
            in if hit \<and> a_pc st2 = [] then Inl (ns, ps)
               else Inr (foldl (A_star_push net allowed_nodes excluded_nodes allowed_plinks
                                  excluded_plinks dist_node node ns ps) st2 (adj net node)))"

text \<open>The loop terminates: a constraint is consumed, or a new node is visited, or the heap shrinks.\<close>

definition anode :: "(pyfloat \<times> nat \<times> nat list \<times> nat list) \<Rightarrow> nat" where
  "anode e = fst (snd e)"

definition ameasure :: "network \<Rightarrow> astate \<Rightarrow> nat \<times> nat \<times> nat" where
  "ameasure net st =
     (length (a_pc st),
      card ((nbrs net \<union> anode ` set (a_heap st)) - set (a_visited st)),
      length (a_heap st))"

lemma push_heap:
  "anode ` set (a_heap (A_star_push net a_n e_n a_t e_t d v ns ps st e))
     \<subseteq> anode ` set (a_heap st) \<union> {fst e}"
  by (auto simp: A_star_push_def heappush_def anode_def split: prod.splits)

lemma push_rest:
  "a_visited (A_star_push net a_n e_n a_t e_t d v ns ps st e) = a_visited st"
  "a_pc (A_star_push net a_n e_n a_t e_t d v ns ps st e) = a_pc st"
  by (auto simp: A_star_push_def split: prod.splits)

lemma fold_push_rest:
  "a_visited (foldl (A_star_push net a_n e_n a_t e_t d v ns ps) st es) = a_visited st"
  "a_pc (foldl (A_star_push net a_n e_n a_t e_t d v ns ps) st es) = a_pc st"
  by (induction es arbitrary: st) (simp_all add: push_rest)

lemma fold_push_heap:
  "anode ` set (a_heap (foldl (A_star_push net a_n e_n a_t e_t d v ns ps) st es))
     \<subseteq> anode ` set (a_heap st) \<union> fst ` set es"
proof (induction es arbitrary: st)
  case Nil
  show ?case by simp
next
  case (Cons e es)
  show ?case
    using Cons [of "A_star_push net a_n e_n a_t e_t d v ns ps st e"]
      push_heap [of net a_n e_n a_t e_t d v ns ps st e]
    by auto
qed

lemma A_star_step_decreases:
  assumes "A_star_step net a_n e_n a_t e_t st = Inr st'" "a_heap st \<noteq> []"
  shows "(ameasure net st', ameasure net st) \<in> less_than <*lex*> less_than <*lex*> less_than"
proof -
  from assms(2) obtain d v ns ps h where pop: "heappop fst (a_heap st) = Some ((d, v, ns, ps), h)"
    by (cases "heappop fst (a_heap st)") (auto simp: heappop_None)
  have mem: "(d, v, ns, ps) \<in> set (a_heap st)" and sub: "set h \<subseteq> set (a_heap st)"
    and len: "length h < length (a_heap st)"
    using pop heappop_mem heappop_set heappop_length by metis+
  let ?U = "nbrs net \<union> anode ` set (a_heap st)"
  have nb: "fst ` set (adj net v) \<subseteq> nbrs net"
    using adj_nbrs by force
  show ?thesis
  proof (cases "v \<in> set (a_visited st)")
    case True
    with assms(1) pop have st': "st' = st\<lparr>a_heap := h\<rparr>"
      by (simp add: A_star_step_def)
    have "(nbrs net \<union> anode ` set h) - set (a_visited st) \<subseteq> ?U - set (a_visited st)"
      using sub by auto
    then have "card ((nbrs net \<union> anode ` set h) - set (a_visited st)) \<le> card (?U - set (a_visited st))"
      by (intro card_mono) (auto simp: finite_nbrs)
    with len show ?thesis
      by (auto simp: ameasure_def st')
  next
    case False
    show ?thesis
    proof (cases "a_pc st \<noteq> [] \<and> v = last (a_pc st)")
      case True
      let ?st2 = "st\<lparr>a_heap := [], a_visited := [], a_pc := butlast (a_pc st)\<rparr>"
      from assms(1) pop False True
      have "st' = foldl (A_star_push net a_n e_n a_t e_t d v ns ps) ?st2 (adj net v)"
        by (auto simp: A_star_step_def Let_def split: if_splits)
      then have "a_pc st' = butlast (a_pc st)"
        by (simp add: fold_push_rest)
      with True show ?thesis
        by (auto simp: ameasure_def)
    next
      case nohit: False
      let ?st1 = "st\<lparr>a_heap := h, a_visited := v # a_visited st\<rparr>"
      from assms(1) pop False nohit
      have st': "st' = foldl (A_star_push net a_n e_n a_t e_t d v ns ps) ?st1 (adj net v)"
        by (auto simp: A_star_step_def Let_def split: if_splits)
      have pc': "a_pc st' = a_pc st" and v': "a_visited st' = v # a_visited st"
        by (simp_all add: st' fold_push_rest)
      have "anode ` set (a_heap st') \<subseteq> anode ` set h \<union> fst ` set (adj net v)"
        using fold_push_heap [of net a_n e_n a_t e_t d v ns ps ?st1 "adj net v"]
        by (simp add: st')
      with sub nb have "anode ` set (a_heap st') \<subseteq> ?U"
        by blast
      then have "(nbrs net \<union> anode ` set (a_heap st')) - set (a_visited st') \<subseteq> (?U - set (a_visited st)) - {v}"
        unfolding v' by auto
      moreover have "v \<in> ?U - set (a_visited st)"
        using mem False by (force simp: anode_def)
      ultimately have "(nbrs net \<union> anode ` set (a_heap st')) - set (a_visited st') \<subset> ?U - set (a_visited st)"
        by blast
      then have "card ((nbrs net \<union> anode ` set (a_heap st')) - set (a_visited st')) < card (?U - set (a_visited st))"
        by (intro psubset_card_mono) (auto simp: finite_nbrs)
      with pc' show ?thesis
        by (auto simp: ameasure_def)
    qed
  qed
qed

function A_star_loop ::
  "network \<Rightarrow> nat list \<Rightarrow> nat list \<Rightarrow> nat list \<Rightarrow> nat list \<Rightarrow> astate \<Rightarrow> nat list \<times> nat list" where
  "A_star_loop net allowed_nodes excluded_nodes allowed_plinks excluded_plinks st =
     (if a_heap st = [] then ([], [])
      else case A_star_step net allowed_nodes excluded_nodes allowed_plinks excluded_plinks st of
             Inl r \<Rightarrow> r
           | Inr st' \<Rightarrow> A_star_loop net allowed_nodes excluded_nodes allowed_plinks excluded_plinks st')"
  by pat_completeness auto
termination
  by (relation "inv_image (less_than <*lex*> less_than <*lex*> less_than)
                  (\<lambda>(net, a_n, e_n, a_t, e_t, st). ameasure net st)")
     (auto simp: A_star_step_decreases simp del: in_lex_prod)

declare A_star_loop.simps [simp del]

definition A_star ::
  "network \<Rightarrow> nat \<Rightarrow> nat \<Rightarrow> nat list option \<Rightarrow> nat list option \<Rightarrow> nat list option \<Rightarrow>
     nat list option \<Rightarrow> nat list option \<Rightarrow> nat list \<times> nat list" where
  "A_star net src target excluded_plinks excluded_nodes path_constraints allowed_plinks allowed_nodes =
     (let e_n = (case excluded_nodes of None \<Rightarrow> [] | Some n \<Rightarrow> n);
          e_t = (case excluded_plinks of None \<Rightarrow> [] | Some t \<Rightarrow> t);
          p_c = (case path_constraints of None \<Rightarrow> [] | Some c \<Rightarrow> c);
          a_t = (case allowed_plinks of None \<Rightarrow> plinks net | Some t \<Rightarrow> t);
          a_n = (case allowed_nodes of None \<Rightarrow> nodes net | Some n \<Rightarrow> n)
      in A_star_loop net a_n e_n a_t e_t
           \<lparr>a_heap = [(Fin 0, src, [src], [])], a_visited = [], a_pc = target # rev p_c\<rparr>)"

section \<open>Bellman-Ford\<close>

text \<open>
  \<^verbatim>\<open>n + 2\<close> rounds of relaxation over the allowed nodes; the flag \<^verbatim>\<open>negative_cycle\<close> is
  reset at the start of every round. The trace back is the loop of \<^verbatim>\<open>dijkstra\<close> with the
  node sequence kept as well, and is bounded by fuel for the same reason. With
  \<^verbatim>\<open>cycle=True\<close> the loop \<^verbatim>\<open>while curr not in path_node\<close> starts with \<^verbatim>\<open>curr = target\<close> and
  \<^verbatim>\<open>path_node = [target]\<close>, so its body never runs.
\<close>

record bstate =
  b_dist :: "nat \<Rightarrow> pyfloat"
  b_prec_node :: "nat \<Rightarrow> nat option"
  b_prec_plink :: "nat \<Rightarrow> nat option"
  b_negative_cycle :: bool

definition bellman_relax ::
  "network \<Rightarrow> nat list \<Rightarrow> nat list \<Rightarrow> nat list \<Rightarrow> nat list \<Rightarrow> nat \<Rightarrow> bstate \<Rightarrow> nat \<times> nat \<Rightarrow> bstate" where
  "bellman_relax net allowed_nodes excluded_nodes allowed_plinks excluded_plinks node st e =
     (case e of (neighbor, adj_plink) \<Rightarrow>
        if neighbor \<notin> set allowed_nodes - set excluded_nodes then st
        else if adj_plink \<notin> set allowed_plinks - set excluded_plinks then st
        else
          let dist_neighbor =
                fadd (b_dist st node)
                  (if node = source (link net adj_plink) then costSD (link net adj_plink)
                   else costDS (link net adj_plink)) in
          if flt dist_neighbor (b_dist st neighbor) then
            st\<lparr>b_dist := (b_dist st)(neighbor := dist_neighbor),
               b_prec_node := (b_prec_node st)(neighbor := Some node),
               b_prec_plink := (b_prec_plink st)(neighbor := Some adj_plink),
               b_negative_cycle := True\<rparr>
          else st)"

definition bellman_round ::
  "network \<Rightarrow> nat list \<Rightarrow> nat list \<Rightarrow> nat list \<Rightarrow> nat list \<Rightarrow> bstate \<Rightarrow> bstate" where
  "bellman_round net allowed_nodes excluded_nodes allowed_plinks excluded_plinks st =
     foldl (\<lambda>st1 node.
              foldl (bellman_relax net allowed_nodes excluded_nodes allowed_plinks excluded_plinks node)
                st1 (adj net node))
       (st\<lparr>b_negative_cycle := False\<rparr>) allowed_nodes"

fun bellman_traceback ::
  "nat \<Rightarrow> nat \<Rightarrow> nat list \<Rightarrow> (nat \<Rightarrow> nat option) \<Rightarrow> (nat \<Rightarrow> nat option) \<Rightarrow> nat \<Rightarrow>
     nat list \<Rightarrow> nat option list \<Rightarrow> (error + nat list \<times> nat option list) option" where
  "bellman_traceback 0 src keys prec_node prec_plink cur path_node path_plink = None"
| "bellman_traceback (Suc fuel) src keys prec_node prec_plink cur path_node path_plink =
     (if cur = src then Some (Inr (rev path_node, rev (butlast path_plink)))
      else if cur \<notin> set keys then Some (Inl KeyError)
      else case prec_node cur of
             None \<Rightarrow> Some (Inl KeyError)
           | Some c \<Rightarrow>
               if c \<notin> set keys then Some (Inl KeyError)
               else bellman_traceback fuel src keys prec_node prec_plink c
                      (path_node @ [c]) (path_plink @ [prec_plink c]))"

definition bellman_ford ::
  "nat \<Rightarrow> network \<Rightarrow> nat \<Rightarrow> nat \<Rightarrow> bool \<Rightarrow> nat list option \<Rightarrow> nat list option \<Rightarrow>
     nat list option \<Rightarrow> nat list option \<Rightarrow> (error + nat list \<times> nat option list) option" where
  "bellman_ford fuel net src target cycle excluded_plinks excluded_nodes allowed_plinks allowed_nodes =
     (let e_n = (case excluded_nodes of None \<Rightarrow> [] | Some n \<Rightarrow> n);
          e_t = (case excluded_plinks of None \<Rightarrow> [] | Some t \<Rightarrow> t);
          a_t = (case allowed_plinks of None \<Rightarrow> plinks net | Some t \<Rightarrow> t);
          a_n = (case allowed_nodes of None \<Rightarrow> nodes net | Some n \<Rightarrow> n);
          n = length (remdups a_n);
          st = ((bellman_round net a_n e_n a_t e_t) ^^ (n + 2))
                 \<lparr>b_dist = (\<lambda>i. PInf)(src := Fin 0), b_prec_node = (\<lambda>i. None),
                  b_prec_plink = (\<lambda>i. None), b_negative_cycle = False\<rparr>
      in if target \<notin> set a_n \<and> target \<noteq> src then Some (Inl KeyError)
         else if b_dist st target \<noteq> PInf \<and> \<not> cycle then
           (if target \<notin> set a_n then Some (Inl KeyError)
            else bellman_traceback fuel src a_n (b_prec_node st) (b_prec_plink st) target
                   [target] [b_prec_plink st target])
         else if cycle \<and> b_negative_cycle st then
           (if target \<notin> set a_n then Some (Inl KeyError)
            else Some (Inr ([target], [])))
         else Some (Inr ([], [])))"

section \<open>Link-disjoint shortest pairs\<close>

text \<open>
  \<^verbatim>\<open>bhandari\<close> and \<^verbatim>\<open>suurbale\<close> change the link objects, so both give the network
  they leave behind together with their outcome: \<open>(net', Some (Inr links))\<close> for a normal
  return, \<open>(net', Some (Inl e))\<close> when \<open>e\<close> was raised with the links in state \<open>net'\<close>,
  and \<open>(net', None)\<close> when the trace back of the inner search ran out of fuel: the links
  are then in the state \<open>net'\<close> in which the search was started, which is where a call
  whose trace back never ends leaves them.
\<close>

definition allowed_default :: "nat list option \<Rightarrow> nat list \<Rightarrow> nat list" where
  "allowed_default a d = (case a of None \<Rightarrow> d | Some xs \<Rightarrow> xs)"

text \<open>\<^verbatim>\<open>for plink in a_t: plink.flowSD = plink.costSD; plink.flowDS = plink.costDS\<close>\<close>

definition save_costs :: "network \<Rightarrow> nat list \<Rightarrow> network" where
  "save_costs net a_t =
     foldl (\<lambda>n p. n\<lparr>link := (link n)(p := (link n p)\<lparr>flowSD := costSD (link n p),
                                                   flowDS := costDS (link n p)\<rparr>)\<rparr>) net a_t"

text \<open>\<^verbatim>\<open>for plink in a_t: plink.costSD = plink.flowSD; plink.costDS = plink.flowDS\<close>\<close>

definition restore_costs :: "network \<Rightarrow> nat list \<Rightarrow> network" where
  "restore_costs net a_t =
     foldl (\<lambda>n p. n\<lparr>link := (link n)(p := (link n p)\<lparr>costSD := flowSD (link n p),
                                                   costDS := flowDS (link n p)\<rparr>)\<rparr>) net a_t"

text \<open>The links of the first path: infinite cost forward, cost -1 backward.\<close>

fun bhandari_flip :: "network \<Rightarrow> nat \<Rightarrow> nat list \<Rightarrow> network" where
  "bhandari_flip net current_node [] = net"
| "bhandari_flip net current_node (p # first_path) =
     (if current_node = source (link net p) then
        bhandari_flip (net\<lparr>link := (link net)(p := (link net p)\<lparr>costSD := PInf, costDS := Fin (- 1)\<rparr>)\<rparr>)
          (destination (link net p)) first_path
      else
        bhandari_flip (net\<lparr>link := (link net)(p := (link net p)\<lparr>costDS := PInf, costSD := Fin (- 1)\<rparr>)\<rparr>)
          (source (link net p)) first_path)"

definition sym_diff :: "'a set \<Rightarrow> 'a set \<Rightarrow> 'a set" where
  "sym_diff A B = (A - B) \<union> (B - A)"

definition bhandari ::
  "nat \<Rightarrow> network \<Rightarrow> nat \<Rightarrow> nat \<Rightarrow> nat list option \<Rightarrow> nat list option \<Rightarrow>
     network \<times> (error + nat option set) option" where
  "bhandari fuel net src target a_n a_t =
     (let a_t1 = allowed_default a_t (plinks net);
          a_n1 = allowed_default a_n (nodes net);
          net1 = save_costs net a_t1;
          first_path = snd (A_star net1 src target None None None (Some a_t1) (Some a_n1));
          net2 = bhandari_flip net1 src first_path
      in case bellman_ford fuel net2 src target False None None (Some a_t1) (Some a_n1) of
           None \<Rightarrow> (net2, None)
         | Some (Inl e) \<Rightarrow> (net2, Some (Inl e))
         | Some (Inr (_, second_path)) \<Rightarrow>
             (restore_costs net2 a_t1,
              Some (Inr (sym_diff (Some ` set first_path) (set second_path)))))"

text \<open>
  The tree links are re-costed with the distances of their endpoints (KeyError when an
  endpoint has no distance); the links of the first path get an infinite forward cost
  (AttributeError on a \<^verbatim>\<open>None\<close> entry). \<^verbatim>\<open>suurbale\<close> has no loop that restores the costs.
\<close>

fun suurbale_recost :: "network \<Rightarrow> (nat \<rightharpoonup> pyfloat) \<Rightarrow> nat list \<Rightarrow> network \<times> error option" where
  "suurbale_recost net dist_map [] = (net, None)"
| "suurbale_recost net dist_map (p # tree) =
     (case (dist_map (source (link net p)), dist_map (destination (link net p))) of
        (Some d_src, Some d_dest) \<Rightarrow>
          suurbale_recost
            (net\<lparr>link := (link net)(p := (link net p)
                    \<lparr>costSD := fadd (costSD (link net p)) (fsub d_src d_dest),
                     costDS := fadd (costDS (link net p)) (fsub d_dest d_src)\<rparr>)\<rparr>)
            dist_map tree
      | _ \<Rightarrow> (net, Some KeyError))"

fun suurbale_exclude :: "network \<Rightarrow> nat \<Rightarrow> nat option list \<Rightarrow> network \<times> error option" where
  "suurbale_exclude net current_node [] = (net, None)"
| "suurbale_exclude net current_node (None # first_path) = (net, Some AttributeError)"
| "suurbale_exclude net current_node (Some p # first_path) =
     (if current_node = source (link net p) then
        suurbale_exclude (net\<lparr>link := (link net)(p := (link net p)\<lparr>costSD := PInf\<rparr>)\<rparr>)
          (destination (link net p)) first_path
      else
        suurbale_exclude (net\<lparr>link := (link net)(p := (link net p)\<lparr>costDS := PInf\<rparr>)\<rparr>)
          (source (link net p)) first_path)"

definition suurbale ::
  "nat \<Rightarrow> network \<Rightarrow> nat \<Rightarrow> nat \<Rightarrow> nat list option \<Rightarrow> nat list option \<Rightarrow>
     network \<times> (error + nat option set) option" where
  "suurbale fuel net src target a_n a_t =
     (let a_t1 = allowed_default a_t (plinks net);
          a_n1 = allowed_default a_n (nodes net);
          net1 = save_costs net a_t1
      in case dijkstra fuel net1 src target (Some a_t1) (Some a_n1) of
           None \<Rightarrow> (net1, None)
         | Some (Inl e) \<Rightarrow> (net1, Some (Inl e))
         | Some (Inr (dist_map, first_path, tree)) \<Rightarrow>
             (case suurbale_recost net1 dist_map tree of
                (net2, Some e) \<Rightarrow> (net2, Some (Inl e))
              | (net2, None) \<Rightarrow>
                  (case suurbale_exclude net2 src first_path of
                     (net3, Some e) \<Rightarrow> (net3, Some (Inl e))
                   | (net3, None) \<Rightarrow>
                       (net3,
                        Some (Inr (sym_diff (set first_path)
                                     (Some ` set (snd (A_star net3 src target None None None
                                                         (Some a_t1) (Some a_n1))))))))))"

subsection \<open>What the two calls leave in the links\<close>

lemma save_costs_link:
  "link (save_costs net a_t) p =
     (if p \<in> set a_t then (link net p)\<lparr>flowSD := costSD (link net p), flowDS := costDS (link net p)\<rparr>
      else link net p)"
  unfolding save_costs_def
  by (induction a_t arbitrary: net) auto

lemma restore_costs_link:
  "link (restore_costs net a_t) p =
     (if p \<in> set a_t then (link net p)\<lparr>costSD := flowSD (link net p), costDS := flowDS (link net p)\<rparr>
      else link net p)"
  unfolding restore_costs_def
  by (induction a_t arbitrary: net) auto

lemma bhandari_flip_flow:
  "flowSD (link (bhandari_flip net c ps) p) = flowSD (link net p) \<and>
   flowDS (link (bhandari_flip net c ps) p) = flowDS (link net p)"
  by (induction net c ps rule: bhandari_flip.induct) auto

lemma suurbale_recost_flow:
  "flowSD (link (fst (suurbale_recost net dm tree)) p) = flowSD (link net p) \<and>
   flowDS (link (fst (suurbale_recost net dm tree)) p) = flowDS (link net p)"
  by (induction net dm tree rule: suurbale_recost.induct) (auto split: option.splits)

lemma suurbale_exclude_flow:
  "flowSD (link (fst (suurbale_exclude net c ps)) p) = flowSD (link net p) \<and>
   flowDS (link (fst (suurbale_exclude net c ps)) p) = flowDS (link net p)"
  by (induction net c ps rule: suurbale_exclude.induct) auto

lemma bhandari_flows:
  assumes "p \<in> set (allowed_default a_t (plinks net))"
  shows "flowSD (link (fst (bhandari fuel net s t a_n a_t)) p) = costSD (link net p) \<and>
         flowDS (link (fst (bhandari fuel net s t a_n a_t)) p) = costDS (link net p)"
  using assms
  by (auto simp: bhandari_def Let_def restore_costs_link bhandari_flip_flow save_costs_link
      split: option.splits sum.splits)

lemma suurbale_flows:
  assumes "p \<in> set (allowed_default a_t (plinks net))"
  shows "flowSD (link (fst (suurbale fuel net s t a_n a_t)) p) = costSD (link net p) \<and>
         flowDS (link (fst (suurbale fuel net s t a_n a_t)) p) = costDS (link net p)"
proof -
  let ?a_t = "allowed_default a_t (plinks net)"
  let ?net1 = "save_costs net ?a_t"
  let ?net' = "fst (suurbale fuel net s t a_n a_t)"
  have f1: "flowSD (link ?net1 p) = costSD (link net p) \<and> flowDS (link ?net1 p) = costDS (link net p)"
    using assms by (simp add: save_costs_link)
  have "flowSD (link ?net' p) = flowSD (link ?net1 p) \<and> flowDS (link ?net' p) = flowDS (link ?net1 p)"
    using suurbale_recost_flow suurbale_exclude_flow
    by (auto simp: suurbale_def Let_def split: option.splits sum.splits prod.splits)
       (metis fst_conv)+
  with f1 show ?thesis by simp
qed

lemma bhandari_restores_costs:
  assumes "snd (bhandari fuel net s t a_n a_t) = Some (Inr r)"
    and "p \<in> set (allowed_default a_t (plinks net))"
  shows "costSD (link (fst (bhandari fuel net s t a_n a_t)) p) = costSD (link net p) \<and>
         costDS (link (fst (bhandari fuel net s t a_n a_t)) p) = costDS (link net p)"
  using assms
  by (auto simp: bhandari_def Let_def restore_costs_link bhandari_flip_flow save_costs_link
      split: option.splits sum.splits)


definition one_link :: network where
  "one_link =
     \<lparr>nodes = [1, 2], plinks = [1],
      link = (\<lambda>_. (new_plink 1 2 (Fin 3) (Fin 3))\<lparr>flowSD := Fin 7, flowDS := Fin (- 7)\<rparr>),
      graph = [(1, [(2, 1)]), (2, [(1, 1)])]\<rparr>"

lemmas eval_defs = dijkstra_def dijkstra_loop.simps dijkstra_step_def dijkstra_relax_def
  dijkstra_init_def adj_def Let_def A_star_def A_star_loop.simps A_star_step_def A_star_push_def
  heappush_def cost_from_def new_plink_def fsub_def allowed_default_def save_costs_def
  restore_costs_def sym_diff_def bellman_ford_def bellman_round_def bellman_relax_def
  List.map_filter_def

text \<open>
  Claim C10: calling \<^verbatim>\<open>bhandari\<close> or \<^verbatim>\<open>suurbale\<close> overwrites \<^verbatim>\<open>flowSD\<close> and \<^verbatim>\<open>flowDS\<close> of
  every allowed physical link with that link's directional costs and does not restore
  them: in the network either call leaves behind, the two flow fields of every allowed
  link hold the costs the link had on entry, whatever flow they held before. This holds
  for every call and every amount of fuel: when the call returns, when it raises, and
  when the trace back of its inner search does not end.
\<close>

theorem disjoint_pair_overwrites_flows:
  "\<forall>p \<in> set (allowed_default a_t (plinks net)).
     flowSD (link (fst (bhandari fuel net s t a_n a_t)) p) = costSD (link net p) \<and>
     flowDS (link (fst (bhandari fuel net s t a_n a_t)) p) = costDS (link net p) \<and>
     flowSD (link (fst (suurbale fuel net s t a_n a_t)) p) = costSD (link net p) \<and>
     flowDS (link (fst (suurbale fuel net s t a_n a_t)) p) = costDS (link net p)"
  using bhandari_flows suurbale_flows by blast

theorem disjoint_pair_overwrites_flows_witness:
  "flowSD (link one_link 1) = Fin 7 \<and> flowDS (link one_link 1) = Fin (- 7) \<and>
   1 \<in> set (allowed_default None (plinks one_link)) \<and>
   snd (bhandari 5 one_link 1 2 None None) = Some (Inr {Some 1}) \<and>
   snd (suurbale 5 one_link 1 2 None None) = Some (Inr {}) \<and>
   flowSD (link (fst (bhandari 5 one_link 1 2 None None)) 1) = Fin 3 \<and>
   flowDS (link (fst (bhandari 5 one_link 1 2 None None)) 1) = Fin 3 \<and>
   flowSD (link (fst (suurbale 5 one_link 1 2 None None)) 1) = Fin 3 \<and>
   flowDS (link (fst (suurbale 5 one_link 1 2 None None)) 1) = Fin 3"
proof -
  have b: "snd (bhandari 5 one_link 1 2 None None) = Some (Inr {Some 1})"
    by (simp add: bhandari_def one_link_def eval_defs eval_nat_numeral)
  have s: "snd (suurbale 5 one_link 1 2 None None) = Some (Inr {})"
    by (simp add: suurbale_def one_link_def eval_defs eval_nat_numeral)
  have mem: "1 \<in> set (allowed_default None (plinks one_link))"
    by (simp add: allowed_default_def one_link_def)
  have c: "costSD (link one_link 1) = Fin 3" "costDS (link one_link 1) = Fin 3"
    "flowSD (link one_link 1) = Fin 7" "flowDS (link one_link 1) = Fin (- 7)"
    by (simp_all add: one_link_def new_plink_def)
  from disjoint_pair_overwrites_flows [of None one_link 5 1 2 None] mem c
  have "flowSD (link (fst (bhandari 5 one_link 1 2 None None)) 1) = Fin 3 \<and>
        flowDS (link (fst (bhandari 5 one_link 1 2 None None)) 1) = Fin 3 \<and>
        flowSD (link (fst (suurbale 5 one_link 1 2 None None)) 1) = Fin 3 \<and>
        flowDS (link (fst (suurbale 5 one_link 1 2 None None)) 1) = Fin 3"
    by auto
  with b s mem c show ?thesis
    by simp
qed

text \<open>
  Claim C3: \<^verbatim>\<open>bhandari\<close> and \<^verbatim>\<open>suurbale\<close> save the directional costs of every allowed link
  and restore them on every exit path, so that each allowed link has its original
  \<^verbatim>\<open>costSD\<close> and \<^verbatim>\<open>costDS\<close> after the call. \<^verbatim>\<open>bhandari\<close> does so when it returns
  (\<open>bhandari_restores_costs\<close>); \<^verbatim>\<open>suurbale\<close> saves the costs and never writes them back.
  On two nodes joined by one link of cost 3 in both directions, \<^verbatim>\<open>suurbale\<close> returns and
  leaves the link with an infinite forward cost and a backward cost of 6.
\<close>

theorem suurbale_leaves_costs_changed:
  "costSD (link one_link 1) = Fin 3 \<and> costDS (link one_link 1) = Fin 3 \<and>
   (case suurbale 5 one_link 1 2 None None of
      (n, r) \<Rightarrow> (costSD (link n 1), costDS (link n 1), r)) = (PInf, Fin 6, Some (Inr {}))"
  by (simp add: suurbale_def one_link_def eval_defs eval_nat_numeral)

section \<open>Floyd-Warshall\<close>

text \<open>
  \<^verbatim>\<open>W\<close> is the list of rows, indexed by the position of a node in
  \<^verbatim>\<open>list(self.nodes.values())\<close>. The entry of two different nodes is the \<^verbatim>\<open>costSD\<close> of the
  first link the iteration over the neighbours of the first node finds to the second
  (\<^verbatim>\<open>break\<close>), or infinity when the \<^verbatim>\<open>for\<close> loop ends without one (\<^verbatim>\<open>else\<close>); the diagonal
  keeps its 0.
\<close>

definition fw_init :: "network \<Rightarrow> pyfloat list list" where
  "fw_init net =
     map (\<lambda>id1.
        map (\<lambda>id2.
           if id1 \<noteq> id2 then
             (case find (\<lambda>(neighbor, p). neighbor = nodes net ! id2) (adj net (nodes net ! id1)) of
                Some (neighbor, p) \<Rightarrow> costSD (link net p)
              | None \<Rightarrow> PInf)
           else Fin 0)
          [0..<length (nodes net)])
       [0..<length (nodes net)]"

text \<open>\<^verbatim>\<open>W[u][v] = min(W[u][v], W[u][k] + W[k][v])\<close>\<close>

definition fw_relax :: "nat \<Rightarrow> nat \<Rightarrow> nat \<Rightarrow> pyfloat list list \<Rightarrow> pyfloat list list" where
  "fw_relax k u v W = W[u := (W ! u)[v := fmin (W ! u ! v) (fadd (W ! u ! k) (W ! k ! v))]]"

text \<open>The three nested loops \<^verbatim>\<open>for k\<close>, \<^verbatim>\<open>for u\<close>, \<^verbatim>\<open>for v\<close> over \<^verbatim>\<open>range(n)\<close>, innermost first.\<close>

fun fw_for_v :: "nat \<Rightarrow> nat \<Rightarrow> nat list \<Rightarrow> pyfloat list list \<Rightarrow> pyfloat list list" where
  "fw_for_v k u [] W = W"
| "fw_for_v k u (v # vs) W = fw_for_v k u vs (fw_relax k u v W)"

fun fw_for_u :: "nat \<Rightarrow> nat \<Rightarrow> nat list \<Rightarrow> pyfloat list list \<Rightarrow> pyfloat list list" where
  "fw_for_u n k [] W = W"
| "fw_for_u n k (u # us) W = fw_for_u n k us (fw_for_v k u [0..<n] W)"

fun fw_for_k :: "nat \<Rightarrow> nat list \<Rightarrow> pyfloat list list \<Rightarrow> pyfloat list list" where
  "fw_for_k n [] W = W"
| "fw_for_k n (k # ks) W = fw_for_k n ks (fw_for_u n k [0..<n] W)"

text \<open>
  The result is \<open>None\<close> for \<^verbatim>\<open>return False\<close>, and otherwise the dictionary
  \<^verbatim>\<open>all_length[n1][n2]\<close> as a list of rows keyed by node.
\<close>

definition floyd_warshall :: "network \<Rightarrow> (nat \<times> (nat \<times> pyfloat) list) list option" where
  "floyd_warshall net =
     (let n = length (nodes net);
          W = fw_for_k n [0..<n] (fw_init net)
      in if \<exists>v \<in> set [0..<n]. flt (W ! v ! v) (Fin 0) then None
         else Some (map (\<lambda>id1. (nodes net ! id1, map (\<lambda>id2. (nodes net ! id2, W ! id1 ! id2)) [0..<n]))
                      [0..<n]))"

text \<open>The distance \<^verbatim>\<open>all_length[n1][n2]\<close> read from a result.\<close>

definition all_length ::
  "(nat \<times> (nat \<times> pyfloat) list) list option \<Rightarrow> nat \<Rightarrow> nat \<Rightarrow> pyfloat option" where
  "all_length r n1 n2 =
     (case r of None \<Rightarrow> None
      | Some rows \<Rightarrow> (case map_of rows n1 of None \<Rightarrow> None | Some row \<Rightarrow> map_of row n2))"

text \<open>
  The cost of a path as \<^verbatim>\<open>A_star\<close> accumulates it, \<^verbatim>\<open>dist + adj_plink('cost', node)\<close> from the
  node each link is left from, and the sum of the \<^verbatim>\<open>costSD\<close> fields of its links.
\<close>

definition path_cost :: "network \<Rightarrow> nat list \<Rightarrow> nat list \<Rightarrow> pyfloat" where
  "path_cost net path_nodes path_plinks =
     foldl fadd (Fin 0) (map (\<lambda>(n, p). cost_from (link net p) n) (zip path_nodes path_plinks))"

definition path_cost_SD :: "network \<Rightarrow> nat list \<Rightarrow> pyfloat" where
  "path_cost_SD net path_plinks = foldl fadd (Fin 0) (map (\<lambda>p. costSD (link net p)) path_plinks)"

text \<open>
  Three nodes, three links, all costs positive: link 1 from node 1 to node 2 costs 1
  forward and 10 backward, link 2 from node 2 to node 3 costs 1 forward and 5 backward,
  link 3 from node 3 to node 1 costs 1 in both directions.
\<close>

definition asymmetric_triangle :: network where
  "asymmetric_triangle =
     \<lparr>nodes = [1, 2, 3], plinks = [1, 2, 3],
      link = (\<lambda>p. if p = 1 then new_plink 1 2 (Fin 1) (Fin 10)
                  else if p = 2 then new_plink 2 3 (Fin 1) (Fin 5)
                  else new_plink 3 1 (Fin 1) (Fin 1)),
      graph = [(1, [(2, 1), (3, 3)]), (2, [(1, 1), (3, 2)]), (3, [(2, 2), (1, 3)])]\<rparr>"

text \<open>
  Claim C7: on a graph without negative cycle, the distance \<^verbatim>\<open>floyd_warshall\<close> computes for
  a pair of nodes equals the sum of the link costs of the path \<^verbatim>\<open>A_star\<close> returns for that
  pair. \<^verbatim>\<open>floyd_warshall\<close> reads \<^verbatim>\<open>plink.costSD\<close> whichever endpoint the link is left from,
  where \<^verbatim>\<open>A_star\<close> (like \<^verbatim>\<open>dijkstra\<close> and \<^verbatim>\<open>bellman_ford\<close>) takes the cost of the direction
  travelled. On the triangle above \<^verbatim>\<open>floyd_warshall\<close> does not return \<^verbatim>\<open>False\<close> and gives
  distance 1 from node 2 to node 1 (the forward cost of link 1, which leads from 1 to 2),
  while \<^verbatim>\<open>A_star\<close> from 2 to 1 returns the path over links 2 and 3, whose cost is 2, both
  as accumulated by \<^verbatim>\<open>A_star\<close> and as the sum of the \<^verbatim>\<open>costSD\<close> of its links.
\<close>

theorem floyd_warshall_differs_from_A_star:
  "all_length (floyd_warshall asymmetric_triangle) 2 1 = Some (Fin 1) \<and>
   A_star asymmetric_triangle 2 1 None None None None None = ([2, 3, 1], [2, 3]) \<and>
   path_cost asymmetric_triangle [2, 3, 1] [2, 3] = Fin 2 \<and>
   path_cost_SD asymmetric_triangle [2, 3] = Fin 2"
  by code_simp

section \<open>The node and link factories\<close>

text \<open>
  The classes of nodes and links belong to objects.py, which is not among the sources.
  Their objects are a type parameter \<open>'o\<close>, and what the factories use of that module
  is a parameter of the model: the dictionary \<^verbatim>\<open>subtype_to_type\<close>, the dictionaries
  \<^verbatim>\<open>node_class\<close> and \<^verbatim>\<open>link_class_with_vc\<close>, which give for a subtype the class that
  makes an object from keyword arguments, and the method \<^verbatim>\<open>update_properties\<close>. A
  keyword argument is a string, a number, a node (given by its id) or \<^verbatim>\<open>None\<close>.
\<close>

datatype pyval = PStr string | PInt int | PNode nat | PNone

record 'o object_model =
  subtype_to_type :: "string \<rightharpoonup> string"
  node_class :: "string \<rightharpoonup> ((string \<rightharpoonup> pyval) \<Rightarrow> 'o)"
  link_class_with_vc :: "string \<rightharpoonup> ((string \<rightharpoonup> pyval) \<Rightarrow> 'o)"
  update_properties :: "'o \<Rightarrow> (string \<rightharpoonup> pyval) \<Rightarrow> 'o"

text \<open>
  The state of \<^verbatim>\<open>BaseNetwork\<close>. \<open>pn\<close> gives the pool of each of the five keys of
  \<^verbatim>\<open>self.pn\<close> (\<^verbatim>\<open>self.nodes\<close> is the pool \<^verbatim>\<open>'node'\<close>); \<open>bn_graph\<close> is \<^verbatim>\<open>self.graph\<close>, from a node
  id and a link type to the set of (neighbour, link id); an interface is the link id
  with the end it belongs to.
\<close>

record 'o base_network =
  pn :: "string \<Rightarrow> nat \<rightharpoonup> 'o"
  bn_graph :: "nat \<Rightarrow> string \<Rightarrow> (pyval \<times> nat) set"
  interfaces :: "(nat \<times> bool) set"
  cpt_link :: nat
  cpt_node :: nat
  name_to_id :: "pyval \<rightharpoonup> nat"

definition pn_keys :: "string list" where
  "pn_keys = [''node'', ''plink'', ''l2link'', ''l3link'', ''traffic'']"

text \<open>\<^verbatim>\<open>str(n)\<close> for a counter.\<close>

fun str_nat :: "nat \<Rightarrow> string" where
  "str_nat n = (if n < 10 then [''0123456789'' ! n] else str_nat (n div 10) @ [''0123456789'' ! (n mod 10)])"

declare str_nat.simps [simp del]

text \<open>\<^verbatim>\<open>not x\<close> for the arguments \<^verbatim>\<open>id\<close> and \<^verbatim>\<open>name\<close>.\<close>

definition not_id :: "nat option \<Rightarrow> bool" where
  "not_id ident = (ident = None \<or> ident = Some 0)"

definition not_name :: "pyval \<Rightarrow> bool" where
  "not_name name = (name = PNone \<or> name = PStr [] \<or> name = PInt 0)"

text \<open>
  \<^verbatim>\<open>nf(subtype, id, **kwargs)\<close> gives the id of the node it returns; the argument \<^verbatim>\<open>id\<close> is
  overwritten before it is read.
\<close>

definition nf ::
  "'o object_model \<Rightarrow> 'o base_network \<Rightarrow> string \<Rightarrow> nat option \<Rightarrow> (string \<rightharpoonup> pyval) \<Rightarrow>
     'o base_network \<times> (error + nat)" where
  "nf OM bn subtype ident kwargs =
     (let create = (\<lambda>name kwargs1.
            case node_class OM subtype of
              None \<Rightarrow> (bn, Inl KeyError)
            | Some new_node \<Rightarrow>
                (bn\<lparr>pn := (pn bn)(''node'' := (pn bn ''node'')
                        (cpt_node bn \<mapsto> new_node (kwargs1(''id'' \<mapsto> PInt (int (cpt_node bn)))))),
                    name_to_id := (name_to_id bn)(name \<mapsto> cpt_node bn),
                    cpt_node := cpt_node bn + 1\<rparr>,
                 Inr (cpt_node bn)))
      in case kwargs ''name'' of
           None \<Rightarrow>
             create (PStr (subtype @ str_nat (cpt_node bn)))
               (kwargs(''name'' \<mapsto> PStr (subtype @ str_nat (cpt_node bn))))
         | Some name \<Rightarrow>
             (case name_to_id bn name of
                None \<Rightarrow> create name kwargs
              | Some i \<Rightarrow>
                  (case pn bn ''node'' i of
                     None \<Rightarrow> (bn, Inl KeyError)
                   | Some node \<Rightarrow>
                       (bn\<lparr>pn := (pn bn)(''node'' := (pn bn ''node'')(i \<mapsto> update_properties OM node kwargs))\<rparr>,
                        Inr i))))"

text \<open>
  \<^verbatim>\<open>lf(subtype, id, name, **kwargs)\<close> gives the link it returns as its type and id. The
  steps of the creation are taken one after the other, so that an error leaves the
  state they have reached.
\<close>

definition lf_attach ::
  "'o base_network \<Rightarrow> string \<Rightarrow> string \<Rightarrow> nat \<Rightarrow> pyval \<Rightarrow> pyval \<Rightarrow>
     'o base_network \<times> (error + string \<times> nat)" where
  "lf_attach bn subtype link_type i s d =
     (case s of
        PNode s_id \<Rightarrow>
          (let bn1 = bn\<lparr>bn_graph := (bn_graph bn)(s_id := (bn_graph bn s_id)
                           (link_type := insert (d, i) (bn_graph bn s_id link_type)))\<rparr>
           in case d of
                PNode d_id \<Rightarrow>
                  (let bn2 = bn1\<lparr>bn_graph := (bn_graph bn1)(d_id := (bn_graph bn1 d_id)
                                    (link_type := insert (s, i) (bn_graph bn1 d_id link_type)))\<rparr>;
                       bn3 = (if subtype = ''ethernet link'' \<or> subtype = ''optical link''
                              then bn2\<lparr>interfaces := interfaces bn2 \<union> {(i, True), (i, False)}\<rparr>
                              else bn2)
                   in (bn3\<lparr>cpt_link := cpt_link bn3 + 1\<rparr>, Inr (link_type, i)))
              | _ \<Rightarrow> (bn1, Inl AttributeError))
      | _ \<Rightarrow> (bn, Inl AttributeError))"

definition lf ::
  "'o object_model \<Rightarrow> 'o base_network \<Rightarrow> string \<Rightarrow> nat option \<Rightarrow> pyval \<Rightarrow> (string \<rightharpoonup> pyval) \<Rightarrow>
     'o base_network \<times> (error + string \<times> nat)" where
  "lf OM bn subtype ident name kwargs =
     (case subtype_to_type OM subtype of
        None \<Rightarrow> (bn, Inl KeyError)
      | Some link_type \<Rightarrow>
          if not_id ident then
            (case name_to_id bn name of
               Some i \<Rightarrow>
                 (if link_type \<notin> set pn_keys then (bn, Inl KeyError)
                  else case pn bn link_type i of
                         None \<Rightarrow> (bn, Inl KeyError)
                       | Some l \<Rightarrow>
                           (bn\<lparr>pn := (pn bn)(link_type := (pn bn link_type)(i \<mapsto> update_properties OM l kwargs))\<rparr>,
                            Inr (link_type, i)))
             | None \<Rightarrow>
                 (case (kwargs ''source'', kwargs ''destination'') of
                    (Some s, Some d) \<Rightarrow>
                      (let i = cpt_link bn;
                           name1 = (if not_name name then PStr (subtype @ str_nat (cpt_link bn)) else name);
                           kwargs1 = kwargs(''id'' \<mapsto> PInt (int i), ''name'' \<mapsto> name1)
                       in case link_class_with_vc OM subtype of
                            None \<Rightarrow> (bn, Inl KeyError)
                          | Some new_link \<Rightarrow>
                              let bn1 = bn\<lparr>name_to_id := (name_to_id bn)(name1 \<mapsto> i)\<rparr>
                              in if link_type \<notin> set pn_keys then (bn1, Inl KeyError)
                                 else lf_attach
                                        (bn1\<lparr>pn := (pn bn1)(link_type := (pn bn1 link_type)
                                                  (i \<mapsto> new_link kwargs1))\<rparr>)
                                        subtype link_type i s d)
                  | _ \<Rightarrow> (bn, Inl KeyError)))
          else
            (if link_type \<notin> set pn_keys then (bn, Inl KeyError)
             else case pn bn link_type (the ident) of
                    None \<Rightarrow> (bn, Inl KeyError)
                  | Some l \<Rightarrow> (bn, Inr (link_type, the ident))))"

text \<open>The name under which a call of a factory registers or finds its object.\<close>

definition nf_name :: "'o base_network \<Rightarrow> string \<Rightarrow> (string \<rightharpoonup> pyval) \<Rightarrow> pyval" where
  "nf_name bn subtype kwargs =
     (case kwargs ''name'' of
        None \<Rightarrow> PStr (subtype @ str_nat (cpt_node bn))
      | Some name \<Rightarrow> name)"

definition lf_name :: "'o base_network \<Rightarrow> string \<Rightarrow> pyval \<Rightarrow> pyval" where
  "lf_name bn subtype name =
     (if name_to_id bn name = None \<and> not_name name then PStr (subtype @ str_nat (cpt_link bn))
      else name)"

text \<open>The network after \<^verbatim>\<open>__init__\<close>.\<close>

definition init_network :: "'o base_network" where
  "init_network =
     \<lparr>pn = (\<lambda>t. Map.empty), bn_graph = (\<lambda>n t. {}), interfaces = {},
      cpt_link = 1, cpt_node = 1, name_to_id = Map.empty\<rparr>"

subsection \<open>A second call with the same name\<close>

lemma nf_again:
  assumes "nf OM bn subtype1 id1 kw1 = (bn1, Inr i)"
    and "kw2 ''name'' = Some (nf_name bn subtype1 kw1)"
  shows "\<exists>node. pn bn1 ''node'' i = Some node \<and>
           nf OM bn1 subtype2 id2 kw2 =
             (bn1\<lparr>pn := (pn bn1)(''node'' := (pn bn1 ''node'')(i \<mapsto> update_properties OM node kw2))\<rparr>, Inr i)"
  using assms
  by (auto simp: nf_def nf_name_def Let_def split: option.splits if_splits)

lemma lf_attach_result:
  assumes "lf_attach bn subtype1 link_type i s d = (bn1, Inr r)"
  shows "r = (link_type, i) \<and> pn bn1 = pn bn \<and> name_to_id bn1 = name_to_id bn"
  using assms
  by (auto simp: lf_attach_def Let_def split: pyval.splits if_splits)

lemma lf_lookup:
  assumes "subtype_to_type OM subtype2 = Some link_type" and "not_id ident"
    and "name_to_id bn name = Some i" and "link_type \<in> set pn_keys"
    and "pn bn link_type i = Some l"
  shows "lf OM bn subtype2 ident name kw =
           (bn\<lparr>pn := (pn bn)(link_type := (pn bn link_type)(i \<mapsto> update_properties OM l kw))\<rparr>,
            Inr (link_type, i))"
  using assms by (simp add: lf_def)

lemma lf_again:
  assumes call: "lf OM bn subtype1 id1 name1 kw1 = (bn1, Inr (t, i))"
    and id1: "not_id id1" and id2: "not_id id2"
    and same: "subtype_to_type OM subtype2 = subtype_to_type OM subtype1"
  shows "\<exists>l. pn bn1 t i = Some l \<and>
           lf OM bn1 subtype2 id2 (lf_name bn subtype1 name1) kw2 =
             (bn1\<lparr>pn := (pn bn1)(t := (pn bn1 t)(i \<mapsto> update_properties OM l kw2))\<rparr>, Inr (t, i))"
proof -
  obtain link_type where lt: "subtype_to_type OM subtype1 = Some link_type"
    using call by (cases "subtype_to_type OM subtype1") (simp_all add: lf_def)
  have found: "\<exists>l. name_to_id bn1 (lf_name bn subtype1 name1) = Some i \<and> t = link_type \<and>
                 link_type \<in> set pn_keys \<and> pn bn1 link_type i = Some l"
  proof (cases "name_to_id bn name1")
    case (Some j)
    then have n: "lf_name bn subtype1 name1 = name1"
      by (simp add: lf_name_def)
    from call lt id1 Some show ?thesis
      unfolding n
      by (auto simp: lf_def split: if_splits option.splits)
  next
    case None
    let ?name = "if not_name name1 then PStr (subtype1 @ str_nat (cpt_link bn)) else name1"
    have n: "lf_name bn subtype1 name1 = ?name"
      using None by (simp add: lf_name_def)
    from call lt id1 None obtain s d new_link where
      keys: "link_type \<in> set pn_keys" and
      att: "lf_attach
              (bn\<lparr>name_to_id := (name_to_id bn)(?name \<mapsto> cpt_link bn),
                  pn := (pn bn)(link_type := (pn bn link_type)
                    (cpt_link bn \<mapsto> new_link
                       (kw1(''id'' \<mapsto> PInt (int (cpt_link bn)), ''name'' \<mapsto> ?name))))\<rparr>)
              subtype1 link_type (cpt_link bn) s d = (bn1, Inr (t, i))"
      by (auto simp: lf_def Let_def split: if_splits option.splits)
    from lf_attach_result [OF att] keys show ?thesis
      unfolding n by simp
  qed
  then obtain l where l: "name_to_id bn1 (lf_name bn subtype1 name1) = Some i" "t = link_type"
    "link_type \<in> set pn_keys" "pn bn1 link_type i = Some l"
    by blast
  from same lt have "subtype_to_type OM subtype2 = Some link_type" by simp
  from lf_lookup [OF this id2 l(1) l(3) l(4)] l(2) l(4) show ?thesis
    by simp
qed

text \<open>
  Modelled from the spec: an object model for the runs below. An object is the map of
  its attributes, a class makes the object of its keyword arguments, and
  \<^verbatim>\<open>update_properties\<close> sets the attributes named in its argument. The subtype
  \<^verbatim>\<open>'ethernet link'\<close> has the link type \<^verbatim>\<open>'plink'\<close> and the subtype \<^verbatim>\<open>'l3vc'\<close> the link type
  \<^verbatim>\<open>'l3link'\<close>, as in \<^verbatim>\<open>gftr(source, 'l3link', 'l3vc')\<close> of \<^verbatim>\<open>static_RFT_builder\<close>.
  With it: two routers \<^verbatim>\<open>a\<close> and \<^verbatim>\<open>b\<close> made by \<^verbatim>\<open>nf\<close>, and a layer-3 virtual connection
  \<^verbatim>\<open>vc\<close> between them made by \<^verbatim>\<open>lf\<close>.
\<close>

definition objects :: "(string \<rightharpoonup> pyval) object_model" where
  "objects =
     \<lparr>subtype_to_type = [''ethernet link'' \<mapsto> ''plink'', ''l3vc'' \<mapsto> ''l3link''],
      node_class = [''router'' \<mapsto> (\<lambda>kwargs. kwargs)],
      link_class_with_vc = [''ethernet link'' \<mapsto> (\<lambda>kwargs. kwargs), ''l3vc'' \<mapsto> (\<lambda>kwargs. kwargs)],
      update_properties = (\<lambda>ob kwargs. ob ++ kwargs)\<rparr>"

definition router_a :: "(string \<rightharpoonup> pyval) base_network" where
  "router_a = fst (nf objects init_network ''router'' None [''name'' \<mapsto> PStr ''a''])"

definition router_ab :: "(string \<rightharpoonup> pyval) base_network" where
  "router_ab = fst (nf objects router_a ''router'' None [''name'' \<mapsto> PStr ''b''])"

definition with_vc :: "(string \<rightharpoonup> pyval) base_network" where
  "with_vc =
     fst (lf objects router_ab ''l3vc'' None (PStr ''vc'')
            [''source'' \<mapsto> PNode 1, ''destination'' \<mapsto> PNode 2])"

lemmas factory_defs = nf_def lf_def lf_attach_def nf_name_def lf_name_def not_id_def not_name_def
  pn_keys_def objects_def init_network_def router_a_def
  router_ab_def with_vc_def Let_def

text \<open>
  Claim C5: a second call of \<^verbatim>\<open>nf\<close> or \<^verbatim>\<open>lf\<close> with a name already registered returns the
  object of the first call, updates its attributes from the new keyword arguments and
  makes no duplicate, the pools and the counters staying as they are. For \<^verbatim>\<open>nf\<close> this
  holds as stated: when the first call returns node \<open>i\<close> and the second is given the
  name of the first, the second returns \<open>i\<close> and leaves the network as it was but for
  the attributes of node \<open>i\<close>, which are updated with its keyword arguments. For \<^verbatim>\<open>lf\<close> it
  holds when neither call is given an id and the subtype of the second call has the
  link type of the first: \<^verbatim>\<open>lf\<close> looks the id of the name up in the pool of the link type
  of its argument \<^verbatim>\<open>subtype\<close>.
\<close>

theorem factories_return_registered_object:
  "(nf OM bn subtype1 id1 kw1 = (bn1, Inr i) \<and> kw2 ''name'' = Some (nf_name bn subtype1 kw1) \<longrightarrow>
      (\<exists>node. pn bn1 ''node'' i = Some node \<and>
         nf OM bn1 subtype2 id2 kw2 =
           (bn1\<lparr>pn := (pn bn1)(''node'' := (pn bn1 ''node'')(i \<mapsto> update_properties OM node kw2))\<rparr>,
            Inr i))) \<and>
   (lf OM net subtype3 id3 name3 kw3 = (net1, Inr (t, j)) \<and> not_id id3 \<and> not_id id4 \<and>
    subtype_to_type OM subtype4 = subtype_to_type OM subtype3 \<longrightarrow>
      (\<exists>l. pn net1 t j = Some l \<and>
         lf OM net1 subtype4 id4 (lf_name net subtype3 name3) kw4 =
           (net1\<lparr>pn := (pn net1)(t := (pn net1 t)(j \<mapsto> update_properties OM l kw4))\<rparr>,
            Inr (t, j))))"
  using nf_again [of OM bn subtype1 id1 kw1 bn1 i kw2 subtype2 id2]
    lf_again [of OM net subtype3 id3 name3 kw3 net1 t j id4 subtype4 kw4]
  by blast

theorem factories_return_registered_object_witness:
  "snd (nf objects init_network ''router'' None [''name'' \<mapsto> PStr ''a'']) = Inr 1 \<and>
   snd (nf objects router_a ''router'' None [''name'' \<mapsto> PStr ''a'', ''x'' \<mapsto> PInt 5]) = Inr 1 \<and>
   cpt_node (fst (nf objects router_a ''router'' None [''name'' \<mapsto> PStr ''a'', ''x'' \<mapsto> PInt 5]))
     = cpt_node router_a \<and>
   snd (lf objects router_ab ''l3vc'' None (PStr ''vc'')
          [''source'' \<mapsto> PNode 1, ''destination'' \<mapsto> PNode 2]) = Inr (''l3link'', 1) \<and>
   snd (lf objects with_vc ''l3vc'' None (PStr ''vc'') [''x'' \<mapsto> PInt 5]) = Inr (''l3link'', 1) \<and>
   cpt_link (fst (lf objects with_vc ''l3vc'' None (PStr ''vc'') [''x'' \<mapsto> PInt 5]))
     = cpt_link with_vc"
proof -
  let ?kwa = "[''name'' \<mapsto> PStr ''a'']"
  let ?kwa2 = "[''name'' \<mapsto> PStr ''a'', ''x'' \<mapsto> PInt 5]"
  let ?kwl = "[''source'' \<mapsto> PNode 1, ''destination'' \<mapsto> PNode 2]"
  let ?kwl2 = "[''x'' \<mapsto> PInt (5::int)]"
  have a1: "snd (nf objects init_network ''router'' None ?kwa) = Inr 1"
    by (simp add: factory_defs)
  then have a: "nf objects init_network ''router'' None ?kwa = (router_a, Inr 1)"
    by (simp add: prod_eq_iff router_a_def)
  have an: "?kwa2 ''name'' = Some (nf_name init_network ''router'' ?kwa)"
    by (simp add: nf_name_def)
  have l1: "snd (lf objects router_ab ''l3vc'' None (PStr ''vc'') ?kwl) = Inr (''l3link'', 1)"
    by (simp add: factory_defs)
  then have l: "lf objects router_ab ''l3vc'' None (PStr ''vc'') ?kwl = (with_vc, Inr (''l3link'', 1))"
    by (simp add: prod_eq_iff with_vc_def)
  have ln: "lf_name router_ab ''l3vc'' (PStr ''vc'') = PStr ''vc''"
    by (simp add: lf_name_def not_name_def)
  from factories_return_registered_object
         [of objects init_network "''router''" None ?kwa router_a 1 ?kwa2 "''router''" None
             router_ab "''l3vc''" None "PStr ''vc''" ?kwl with_vc "''l3link''" 1 None "''l3vc''" ?kwl2]
       a an l ln
  have "(\<exists>node. nf objects router_a ''router'' None ?kwa2 =
            (router_a\<lparr>pn := (pn router_a)(''node'' := (pn router_a ''node'')(1 \<mapsto> update_properties objects node ?kwa2))\<rparr>,
             Inr 1)) \<and>
        (\<exists>l. lf objects with_vc ''l3vc'' None (PStr ''vc'') ?kwl2 =
            (with_vc\<lparr>pn := (pn with_vc)(''l3link'' := (pn with_vc ''l3link'')(1 \<mapsto> update_properties objects l ?kwl2))\<rparr>,
             Inr (''l3link'', 1)))"
    by (simp add: not_id_def) blast
  with a1 l1 show ?thesis
    by auto
qed

theorem lf_other_subtype_raises:
  "snd (lf objects router_ab ''l3vc'' None (PStr ''vc'')
          [''source'' \<mapsto> PNode 1, ''destination'' \<mapsto> PNode 2]) = Inr (''l3link'', 1) \<and>
   name_to_id with_vc (PStr ''vc'') = Some 1 \<and>
   snd (lf objects with_vc ''ethernet link'' None (PStr ''vc'') Map.empty) = Inl KeyError"
  by (simp add: factory_defs)

section \<open>Routing-table based path finding\<close>

text \<open>
  Modelled from the spec: the attributes of \<^verbatim>\<open>Node\<close>, interface and \<^verbatim>\<open>DataFlow\<close> objects
  (objects.py is not among the sources), as far as \<^verbatim>\<open>RFT_path_finder\<close> reads them:
  \<^item> \<open>subtype\<close>: \<^verbatim>\<open>node.subtype\<close>;
  \<^item> \<open>rt\<close>: \<^verbatim>\<open>node.rt\<close>, from a destination subnetwork or the default route \<^verbatim>\<open>'0.0.0.0'\<close> to
    the routes in the order the iteration yields them;
  \<^item> \<open>arpt\<close>: \<^verbatim>\<open>node.arpt\<close>, from an IP address to (MAC address, outgoing interface);
  \<^item> \<open>st\<close>: \<^verbatim>\<open>node.st\<close>, from a MAC address to an interface;
  \<^item> \<open>if_mac\<close>, \<open>if_link\<close>: \<^verbatim>\<open>interface.mac_address\<close> and \<^verbatim>\<open>interface.link\<close>.
  A route is the tuple \<^verbatim>\<open>(type, nh_ip, ex_int, metric, router, ex_tk)\<close>; the two components
  the loop discards are left out. \<^verbatim>\<open>ex_int\<close> and \<^verbatim>\<open>ex_tk\<close> are \<^verbatim>\<open>None\<close> in a static route.
  A new \<^verbatim>\<open>DataFlow\<close> is a true value without destination MAC address.
\<close>

datatype node_subtype = Router | Switch | Host

datatype rt_key = Subnetwork nat | Default_route

record route =
  nh_ip :: nat
  ex_int :: "nat option"
  router :: nat
  ex_tk :: "nat option"

record node_tables =
  subtype :: "nat \<Rightarrow> node_subtype"
  rt :: "nat \<Rightarrow> rt_key \<rightharpoonup> route list"
  arpt :: "nat \<Rightarrow> nat \<rightharpoonup> nat \<times> nat"
  st :: "nat \<Rightarrow> nat \<rightharpoonup> nat"
  if_mac :: "nat \<Rightarrow> nat"
  if_link :: "nat \<Rightarrow> nat"

record dataflow =
  df_throughput :: pyfloat
  df_dst_mac :: "nat option"

text \<open>
  A traffic demand: its end nodes, the subnetworks of its two IP addresses (\<open>None\<close> for
  an address that is not set) and its throughput.
\<close>

record traffic =
  tr_source :: nat
  tr_destination :: nat
  tr_source_IP :: "nat option"
  tr_destination_IP :: "nat option"
  tr_throughput :: pyfloat

text \<open>\<^verbatim>\<open>x /= n\<close> for a count \<open>n\<close>: ZeroDivisionError when \<open>n\<close> is 0.\<close>

definition fdiv_count :: "pyfloat \<Rightarrow> nat \<Rightarrow> error + pyfloat" where
  "fdiv_count x n =
     (if n = 0 then Inl ZeroDivisionError
      else Inr (case x of Fin a \<Rightarrow> Fin (a / of_nat n) | _ \<Rightarrow> x))"

text \<open>
  The state of the walk: the links (whose traffic fields are written), the stack
  \<^verbatim>\<open>heap\<close> (\<^verbatim>\<open>heap.pop()\<close> takes the last entry) and the set \<^verbatim>\<open>path\<close>, kept as its nodes and
  its links.
\<close>

record rft_state =
  r_net :: network
  r_heap :: "(nat \<times> nat option \<times> dataflow option) list"
  r_path_nodes :: "nat set"
  r_path_plinks :: "nat set"

text \<open>
  The body of \<^verbatim>\<open>for idx, route in enumerate(routes)\<close> (l.471-491), for the routes that
  are left; \<open>share\<close> is \<^verbatim>\<open>len(routes) - failed_plinks\<close>. The loop has no test on the route
  being failed. The text collected in \<^verbatim>\<open>path_str\<close> is not modelled.
\<close>

fun rft_routes ::
  "node_tables \<Rightarrow> nat \<Rightarrow> dataflow \<Rightarrow> nat \<Rightarrow> route list \<Rightarrow> rft_state \<Rightarrow> rft_state \<times> error option" where
  "rft_routes T curr_node df share [] s = (s, None)"
| "rft_routes T curr_node df share (r # routes) s =
     (case fdiv_count (df_throughput df) share of
        Inl e \<Rightarrow> (s, Some e)
      | Inr thr \<Rightarrow>
          (case ex_int r of
             None \<Rightarrow> (s, Some AttributeError)
           | Some i \<Rightarrow>
               (case arpt T curr_node (nh_ip r) of
                  None \<Rightarrow> (s, Some KeyError)
                | Some (mac, out_if) \<Rightarrow>
                    (case ex_tk r of
                       None \<Rightarrow> (s, Some AttributeError)
                     | Some tk \<Rightarrow>
                         let new_dataflow = \<lparr>df_throughput = thr, df_dst_mac = Some mac\<rparr>;
                             l = link (r_net s) tk;
                             sd = (curr_node = source l);
                             l1 = (if sd then l\<lparr>trafficSD := fadd (trafficSD l) thr\<rparr>
                                   else l\<lparr>trafficDS := fadd (trafficDS l) thr\<rparr>);
                             next_hop = (if sd then destination l else source l)
                         in rft_routes T curr_node df share routes
                              (s\<lparr>r_net := (r_net s)\<lparr>link := (link (r_net s))(tk := l1)\<rparr>,
                                 r_path_plinks := insert tk (r_path_plinks s),
                                 r_heap := r_heap s @ [(next_hop, Some tk, Some new_dataflow)]\<rparr>)))))"

text \<open>
  The loop \<^verbatim>\<open>while heap and valid\<close>. A routing loop in the tables keeps it running for
  ever, so it is bounded by fuel: the outcome is \<open>None\<close> when the fuel runs out,
  \<open>Some (Inl e)\<close> when \<open>e\<close> is raised and \<open>Some (Inr ())\<close> when the loop ends (also by
  \<^verbatim>\<open>break\<close>); the state reached is given in each case.
\<close>

fun rft_loop ::
  "nat \<Rightarrow> node_tables \<Rightarrow> nat set \<Rightarrow> traffic \<Rightarrow> nat \<Rightarrow> rft_state \<Rightarrow> rft_state \<times> (error + unit) option" where
  "rft_loop 0 T failed_obj tr dst_ntw s = (s, None)"
| "rft_loop (Suc fuel) T failed_obj tr dst_ntw s =
     (if r_heap s = [] then (s, Some (Inr ()))
      else
        case last (r_heap s) of (curr_node, curr_plink, dataflow_opt) \<Rightarrow>
          let s1 = s\<lparr>r_heap := butlast (r_heap s),
                     r_path_nodes := insert curr_node (r_path_nodes s)\<rparr>;
              df = (case dataflow_opt of
                      None \<Rightarrow> \<lparr>df_throughput = tr_throughput tr, df_dst_mac = None\<rparr>
                    | Some d \<Rightarrow> d)
          in if curr_node = tr_destination tr then rft_loop fuel T failed_obj tr dst_ntw s1
             else
               case subtype T curr_node of
                 Router \<Rightarrow>
                   (case (case rt T curr_node (Subnetwork dst_ntw) of
                            Some routes \<Rightarrow> Some routes
                          | None \<Rightarrow> rt T curr_node Default_route) of
                      None \<Rightarrow> (s1, Some (Inr ()))
                    | Some routes \<Rightarrow>
                        let failed_plinks = length (filter (\<lambda>r. ex_tk r \<in> Some ` failed_obj) routes)
                        in case rft_routes T curr_node df (length routes - failed_plinks) routes s1 of
                             (s2, Some e) \<Rightarrow> (s2, Some (Inl e))
                           | (s2, None) \<Rightarrow> rft_loop fuel T failed_obj tr dst_ntw s2)
               | Switch \<Rightarrow>
                   (case df_dst_mac df of
                      None \<Rightarrow> (s1, Some (Inl KeyError))
                    | Some mac \<Rightarrow>
                        (case st T curr_node mac of
                           None \<Rightarrow> (s1, Some (Inl KeyError))
                         | Some i \<Rightarrow>
                             let tk = if_link T i;
                                 l = link (r_net s1) tk;
                                 next_hop = (if source l = curr_node then destination l else source l)
                             in rft_loop fuel T failed_obj tr dst_ntw
                                  (s1\<lparr>r_path_plinks := insert tk (r_path_plinks s1),
                                      r_heap := r_heap s1 @ [(next_hop, Some tk, Some df)]\<rparr>)))
               | Host \<Rightarrow> rft_loop fuel T failed_obj tr dst_ntw s1)"

text \<open>
  \<^verbatim>\<open>RFT_path_finder(traffic)\<close>: the links after the call, and the outcome with the
  returned \<^verbatim>\<open>path\<close> (its nodes and its links).
\<close>

definition RFT_path_finder ::
  "nat \<Rightarrow> node_tables \<Rightarrow> nat set \<Rightarrow> network \<Rightarrow> traffic \<Rightarrow>
     network \<times> (error + nat set \<times> nat set) option" where
  "RFT_path_finder fuel T failed_obj net tr =
     (case (tr_source_IP tr, tr_destination_IP tr) of
        (Some src_ip, Some dst_ntw) \<Rightarrow>
          (case rft_loop fuel T failed_obj tr dst_ntw
                  \<lparr>r_net = net, r_heap = [(tr_source tr, None, None)],
                   r_path_nodes = {}, r_path_plinks = {}\<rparr> of
             (s, None) \<Rightarrow> (r_net s, None)
           | (s, Some (Inl e)) \<Rightarrow> (r_net s, Some (Inl e))
           | (s, Some (Inr u)) \<Rightarrow> (r_net s, Some (Inr (r_path_nodes s, r_path_plinks s))))
      | _ \<Rightarrow> (net, Some (Inr ({}, {}))))"

text \<open>
  Two routers joined by two parallel links, both from router 1 to router 2. Router 1
  has two equal-cost routes to subnetwork 9, one over each link; link 2 is failed.
\<close>

definition two_routes :: network where
  "two_routes =
     \<lparr>nodes = [1, 2], plinks = [1, 2], link = (\<lambda>_. new_plink 1 2 (Fin 1) (Fin 1)),
      graph = [(1, [(2, 1), (2, 2)]), (2, [(1, 1), (1, 2)])]\<rparr>"

definition two_routes_tables :: node_tables where
  "two_routes_tables =
     \<lparr>subtype = (\<lambda>_. Router),
      rt = (\<lambda>n. if n = 1 then
                   [Subnetwork 9 \<mapsto>
                      [\<lparr>nh_ip = 21, ex_int = Some 11, router = 2, ex_tk = Some 1\<rparr>,
                       \<lparr>nh_ip = 22, ex_int = Some 12, router = 2, ex_tk = Some 2\<rparr>]]
                 else Map.empty),
      arpt = (\<lambda>n. if n = 1 then [21 \<mapsto> (31, 11), 22 \<mapsto> (32, 12)] else Map.empty),
      st = (\<lambda>_. Map.empty),
      if_mac = (\<lambda>i. i + 30),
      if_link = (\<lambda>i. i - 10)\<rparr>"

definition demand :: traffic where
  "demand = \<lparr>tr_source = 1, tr_destination = 2, tr_source_IP = Some 8,
             tr_destination_IP = Some 9, tr_throughput = Fin 10\<rparr>"

text \<open>
  Claim C1: at a router whose table holds several equal-cost routes to the destination,
  the throughput is split evenly over the routes that are not failed: the exit link of
  each of them gets throughput / (number of routes not failed) added to its traffic, and
  the exit links of the failed routes get nothing. The loop over the routes divides by
  the number of routes not failed but visits every route, failed or not. With two routes,
  the second over the failed link 2, and a throughput of 10, the call returns with 10
  added to the traffic of link 1 and 10 added to the traffic of the failed link 2.
\<close>

theorem RFT_path_finder_loads_failed_route:
  "trafficSD (link two_routes 1) = Fin 0 \<and> trafficSD (link two_routes 2) = Fin 0 \<and>
   (case RFT_path_finder 5 two_routes_tables {2} two_routes demand of
      (net, r) \<Rightarrow> (trafficSD (link net 1), trafficSD (link net 2), r))
     = (Fin 10, Fin 10, Some (Inr ({1, 2}, {1, 2})))"
  by (simp add: RFT_path_finder_def two_routes_def two_routes_tables_def demand_def
      fdiv_count_def new_plink_def Let_def eval_nat_numeral insert_commute)

section \<open>Maximum flow: Ford-Fulkerson and Edmonds-Karp\<close>

text \<open>\<^verbatim>\<open>for plink in self.plinks.values(): plink.flowSD = plink.flowDS = 0\<close>\<close>

definition reset_flow :: "network \<Rightarrow> network" where
  "reset_flow net =
     foldl (\<lambda>n p. n\<lparr>link := (link n)(p := (link n p)\<lparr>flowSD := Fin 0, flowDS := Fin 0\<rparr>)\<rparr>)
       net (plinks net)"

text \<open>
  \<^verbatim>\<open>plink.__dict__['flow' + sd] += x; plink.__dict__['flow' + ds] -= x\<close>, where \<open>direction\<close>
  tells whether \<^verbatim>\<open>sd\<close> is \<^verbatim>\<open>'SD'\<close>.
\<close>

definition push_flow :: "network \<Rightarrow> nat \<Rightarrow> bool \<Rightarrow> pyfloat \<Rightarrow> network" where
  "push_flow net p direction x =
     (let l = link net p in
      net\<lparr>link := (link net)(p :=
             (if direction then l\<lparr>flowSD := fadd (flowSD l) x, flowDS := fsub (flowDS l) x\<rparr>
              else l\<lparr>flowDS := fadd (flowDS l) x, flowSD := fsub (flowSD l) x\<rparr>))\<rparr>)"

text \<open>
  The strings the attribute names are built from: \<^verbatim>\<open>b * 'SD'\<close> for a truth value \<open>b\<close>, and
  \<^verbatim>\<open>x or y\<close>, which is \<open>y\<close> when \<open>x\<close> is the empty string. Modelled from the spec:
  \<^verbatim>\<open>getattr\<close> on a link (objects.py is not among the sources) finds the directional
  fields of the record \<open>plink\<close> under their names and raises AttributeError for any
  other name.
\<close>

definition str_mul :: "bool \<Rightarrow> string \<Rightarrow> string" where
  "str_mul b x = (if b then x else [])"

definition str_or :: "string \<Rightarrow> string \<Rightarrow> string" where
  "str_or x y = (if x = [] then y else x)"

definition getattr_plink :: "plink \<Rightarrow> string \<Rightarrow> error + pyfloat" where
  "getattr_plink l name =
     (if name = ''flowSD'' then Inr (flowSD l)
      else if name = ''flowDS'' then Inr (flowDS l)
      else if name = ''capacitySD'' then Inr (capacitySD l)
      else if name = ''capacityDS'' then Inr (capacityDS l)
      else if name = ''costSD'' then Inr (costSD l)
      else if name = ''costDS'' then Inr (costDS l)
      else if name = ''trafficSD'' then Inr (trafficSD l)
      else if name = ''trafficDS'' then Inr (trafficDS l)
      else if name = ''wctrafficSD'' then Inr (wctrafficSD l)
      else if name = ''wctrafficDS'' then Inr (wctrafficDS l)
      else Inl AttributeError)"

text \<open>\<^verbatim>\<open>sum(...)\<close> of fallible terms, from 0 and from the left.\<close>

fun sum_results :: "pyfloat \<Rightarrow> (error + pyfloat) list \<Rightarrow> error + pyfloat" where
  "sum_results acc [] = Inr acc"
| "sum_results acc (Inl e # xs) = Inl e"
| "sum_results acc (Inr x # xs) = sum_results (fadd acc x) xs"

text \<open>
  \<^verbatim>\<open>augment_ff\<close> is a depth-first search that marks nodes in the shared dictionary
  \<^verbatim>\<open>visit\<close> and changes the flows on the way back. Its result is the pushed value or
  \<^verbatim>\<open>False\<close>; \<^verbatim>\<open>False\<close> is only compared with 0 and tested for truth, where it behaves as the
  number 0, and is that number here. The depth of the recursion is bounded by fuel.
\<close>

fun augment_ff ::
  "nat \<Rightarrow> network \<Rightarrow> pyfloat \<Rightarrow> nat \<Rightarrow> nat \<Rightarrow> (nat \<rightharpoonup> bool) \<Rightarrow>
     (network \<times> (nat \<rightharpoonup> bool) \<times> (error + pyfloat)) option"
and augment_ff_for ::
  "nat \<Rightarrow> network \<Rightarrow> pyfloat \<Rightarrow> nat \<Rightarrow> nat \<Rightarrow> (nat \<rightharpoonup> bool) \<Rightarrow> (nat \<times> nat) list \<Rightarrow>
     (network \<times> (nat \<rightharpoonup> bool) \<times> (error + pyfloat)) option" where
  "augment_ff 0 net val curr_node target visit = None"
| "augment_ff (Suc fuel) net val curr_node target visit =
     (if curr_node = target then Some (net, visit(curr_node \<mapsto> True), Inr val)
      else augment_ff_for fuel net val curr_node target (visit(curr_node \<mapsto> True)) (adj net curr_node))"
| "augment_ff_for fuel net val curr_node target visit [] = Some (net, visit, Inr (Fin 0))"
| "augment_ff_for fuel net val curr_node target visit ((neighbor, adj_plink) # rest) =
     (let l = link net adj_plink;
          direction = (curr_node = source l);
          cap = (if direction then capacitySD l else capacityDS l);
          current_flow = (if direction then flowSD l else flowDS l)
      in if \<not> flt current_flow cap then augment_ff_for fuel net val curr_node target visit rest
         else case visit neighbor of
                None \<Rightarrow> Some (net, visit, Inl KeyError)
              | Some True \<Rightarrow> augment_ff_for fuel net val curr_node target visit rest
              | Some False \<Rightarrow>
                  (case augment_ff fuel net (fmin val (fsub cap current_flow)) neighbor target visit of
                     None \<Rightarrow> None
                   | Some (net1, visit1, Inl e) \<Rightarrow> Some (net1, visit1, Inl e)
                   | Some (net1, visit1, Inr global_flow) \<Rightarrow>
                       if flt (Fin 0) global_flow
                       then Some (push_flow net1 adj_plink direction global_flow, visit1, Inr global_flow)
                       else augment_ff_for fuel net1 val curr_node target visit1 rest))"

text \<open>
  \<^verbatim>\<open>while self.augment_ff(float('inf'), s, d, {n: 0 for n in nodes}): pass\<close>, bounded by
  fuel, then the sum of the attribute \<^verbatim>\<open>'flow' + (s==adj.source)*'SD' or 'DS'\<close> over the
  links of \<open>s\<close>: \<^verbatim>\<open>+\<close> binds tighter than \<^verbatim>\<open>or\<close>.
\<close>

fun ff_while :: "nat \<Rightarrow> nat \<Rightarrow> network \<Rightarrow> nat \<Rightarrow> nat \<Rightarrow> (error + network) option" where
  "ff_while 0 fuel net s d = None"
| "ff_while (Suc k) fuel net s d =
     (case augment_ff fuel net PInf s d (map_of (map (\<lambda>n. (n, False)) (nodes net))) of
        None \<Rightarrow> None
      | Some (net1, visit1, Inl e) \<Rightarrow> Some (Inl e)
      | Some (net1, visit1, Inr v) \<Rightarrow> if truthy v then ff_while k fuel net1 s d else Some (Inr net1))"

definition ford_fulkerson :: "nat \<Rightarrow> network \<Rightarrow> nat \<Rightarrow> nat \<Rightarrow> (error + pyfloat) option" where
  "ford_fulkerson fuel net s d =
     (case ff_while fuel fuel (reset_flow net) s d of
        None \<Rightarrow> None
      | Some (Inl e) \<Rightarrow> Some (Inl e)
      | Some (Inr net1) \<Rightarrow>
          Some (sum_results (Fin 0)
                  (map (\<lambda>(neighbor, adj_plink).
                          getattr_plink (link net1 adj_plink)
                            (str_or (''flow'' @ str_mul (s = source (link net1 adj_plink)) ''SD'') ''DS''))
                     (adj net1 s))))"

text \<open>
  \<^verbatim>\<open>augment_ek\<close> is a breadth-first search from the source. \<^verbatim>\<open>break\<close> leaves the loop over
  the neighbours only; the queue is worked off to its end. The two dictionaries have
  the nodes as keys.
\<close>

record ek_state =
  ek_Q :: "nat list"
  ek_res_cap :: "nat \<rightharpoonup> pyfloat"
  ek_augmenting_path :: "nat \<rightharpoonup> nat option"

fun augment_ek_for ::
  "network \<Rightarrow> nat \<Rightarrow> nat \<Rightarrow> (nat \<times> nat) list \<Rightarrow> ek_state \<Rightarrow> ek_state \<times> error option" where
  "augment_ek_for net dest curr_node [] es = (es, None)"
| "augment_ek_for net dest curr_node ((neighbor, adj_plink) # rest) es =
     (let l = link net adj_plink;
          direction = (curr_node = source l);
          cap = (if direction then capacitySD l else capacityDS l);
          flow = (if direction then flowSD l else flowDS l);
          residual = fsub cap flow
      in if \<not> truthy residual then augment_ek_for net dest curr_node rest es
         else case ek_augmenting_path es neighbor of
                None \<Rightarrow> (es, Some KeyError)
              | Some (Some n) \<Rightarrow> augment_ek_for net dest curr_node rest es
              | Some None \<Rightarrow>
                  (case ek_res_cap es curr_node of
                     None \<Rightarrow> (es, Some KeyError)
                   | Some rc \<Rightarrow>
                       let es1 = es\<lparr>ek_augmenting_path := (ek_augmenting_path es)(neighbor \<mapsto> Some curr_node),
                                     ek_res_cap := (ek_res_cap es)(neighbor \<mapsto> fmin rc residual)\<rparr>
                       in if neighbor = dest then (es1, None)
                          else augment_ek_for net dest curr_node rest (es1\<lparr>ek_Q := ek_Q es1 @ [neighbor]\<rparr>)))"

fun augment_ek_while :: "nat \<Rightarrow> network \<Rightarrow> nat \<Rightarrow> ek_state \<Rightarrow> (ek_state \<times> error option) option" where
  "augment_ek_while 0 net dest es = None"
| "augment_ek_while (Suc fuel) net dest es =
     (case ek_Q es of
        [] \<Rightarrow> Some (es, None)
      | curr_node # Q1 \<Rightarrow>
          (case augment_ek_for net dest curr_node (adj net curr_node) (es\<lparr>ek_Q := Q1\<rparr>) of
             (es1, Some e) \<Rightarrow> Some (es1, Some e)
           | (es1, None) \<Rightarrow> augment_ek_while fuel net dest es1))"

definition augment_ek ::
  "nat \<Rightarrow> network \<Rightarrow> nat \<Rightarrow> nat \<Rightarrow> (error + (nat \<rightharpoonup> nat option) \<times> pyfloat) option" where
  "augment_ek fuel net src dest =
     (case augment_ek_while fuel net dest
             \<lparr>ek_Q = [src],
              ek_res_cap = (map_of (map (\<lambda>n. (n, Fin 0)) (nodes net)))(src \<mapsto> PInf),
              ek_augmenting_path = (map_of (map (\<lambda>n. (n, None)) (nodes net)))(src \<mapsto> Some src)\<rparr> of
        None \<Rightarrow> None
      | Some (es, Some e) \<Rightarrow> Some (Inl e)
      | Some (es, None) \<Rightarrow>
          (case ek_res_cap es dest of
             None \<Rightarrow> Some (Inl KeyError)
           | Some rc \<Rightarrow> Some (Inr (ek_augmenting_path es, rc))))"

text \<open>
  The walk back along the augmenting path. \<^verbatim>\<open>(_, plink) ,= filter(...)\<close> unpacks the links
  between the node and its predecessor and raises ValueError unless there is exactly
  one.
\<close>

fun ek_traceback ::
  "nat \<Rightarrow> network \<Rightarrow> nat \<Rightarrow> (nat \<rightharpoonup> nat option) \<Rightarrow> pyfloat \<Rightarrow> nat \<Rightarrow> (error + network) option" where
  "ek_traceback 0 net src augmenting_path global_flow curr_node = None"
| "ek_traceback (Suc fuel) net src augmenting_path global_flow curr_node =
     (if curr_node = src then Some (Inr net)
      else case augmenting_path curr_node of
             None \<Rightarrow> Some (Inl KeyError)
           | Some prec_node \<Rightarrow>
               (case filter (\<lambda>p. Some (fst p) = prec_node) (adj net curr_node) of
                  [(n, p)] \<Rightarrow>
                    ek_traceback fuel
                      (push_flow net p (\<not> (curr_node = source (link net p))) global_flow)
                      src augmenting_path global_flow n
                | _ \<Rightarrow> Some (Inl ValueError)))"

fun ek_while :: "nat \<Rightarrow> nat \<Rightarrow> network \<Rightarrow> nat \<Rightarrow> nat \<Rightarrow> (error + network) option" where
  "ek_while 0 fuel net src dest = None"
| "ek_while (Suc k) fuel net src dest =
     (case augment_ek fuel net src dest of
        None \<Rightarrow> None
      | Some (Inl e) \<Rightarrow> Some (Inl e)
      | Some (Inr (augmenting_path, global_flow)) \<Rightarrow>
          if \<not> truthy global_flow then Some (Inr net)
          else case ek_traceback fuel net src augmenting_path global_flow dest of
                 None \<Rightarrow> None
               | Some (Inl e) \<Rightarrow> Some (Inl e)
               | Some (Inr net1) \<Rightarrow> ek_while k fuel net1 src dest)"

definition edmonds_karp :: "nat \<Rightarrow> network \<Rightarrow> nat \<Rightarrow> nat \<Rightarrow> (error + pyfloat) option" where
  "edmonds_karp fuel net src dest =
     (case ek_while fuel fuel (reset_flow net) src dest of
        None \<Rightarrow> None
      | Some (Inl e) \<Rightarrow> Some (Inl e)
      | Some (Inr net1) \<Rightarrow>
          Some (sum_results (Fin 0)
                  (map (\<lambda>(neighbor, adj_plink).
                          getattr_plink (link net1 adj_plink)
                            (''flow'' @ str_or (str_mul (src = source (link net1 adj_plink)) ''SD'') ''DS''))
                     (adj net1 src))))"

text \<open>
  Two nodes joined by two parallel links, both from node 1 to node 2, each of capacity 1
  forward and 0 backward: the maximum flow from 1 to 2 is 2.
\<close>

definition parallel_links :: network where
  "parallel_links =
     \<lparr>nodes = [1, 2], plinks = [1, 2],
      link = (\<lambda>_. (new_plink 1 2 (Fin 1) (Fin 1))\<lparr>capacitySD := Fin 1\<rparr>),
      graph = [(1, [(2, 1), (2, 2)]), (2, [(1, 1), (1, 2)])]\<rparr>"

text \<open>
  Claim C4: for every topology with non-negative capacities and every pair of source
  and target, \<^verbatim>\<open>ford_fulkerson\<close>, \<^verbatim>\<open>edmonds_karp\<close> and \<^verbatim>\<open>dinic\<close> return the same value of
  the maximum flow. On two nodes joined by two parallel links of capacity 1
  \<^verbatim>\<open>ford_fulkerson\<close> returns 2, and \<^verbatim>\<open>edmonds_karp\<close> does not return a value: its walk back
  along the augmenting path finds two links between the target and its predecessor and
  raises ValueError.
\<close>

theorem edmonds_karp_fails_on_parallel_links:
  "ford_fulkerson 5 parallel_links 1 2 = Some (Inr (Fin 2)) \<and>
   edmonds_karp 5 parallel_links 1 2 = Some (Inl ValueError)"
  by code_simp

end
